theory Spec2Isabelle
  imports Main "HOL-Library.AList"
begin

section \<open>Python values and exceptions\<close>

text \<open>
  The module \<^verbatim>\<open>pyethereum/blocks.py\<close> is Python 2: a \<^verbatim>\<open>str\<close> is a byte string
  (here \<open>string\<close>), integers are unbounded (\<open>int\<close>), and header entries, uncle
  lists and raw transactions are dynamically typed nested values.
\<close>

datatype pyval = PStr string | PInt int | PList "pyval list"

datatype error = TypeError | IndexError | StoreError | Exception string

definition bindE :: "error + 'a \<Rightarrow> ('a \<Rightarrow> error + 'b) \<Rightarrow> error + 'b" where
  "bindE m f = (case m of Inl e \<Rightarrow> Inl e | Inr x \<Rightarrow> f x)"

fun sequenceE :: "(error + 'a) list \<Rightarrow> error + 'a list" where
  "sequenceE [] = Inr []"
| "sequenceE (r # rs) = bindE r (\<lambda>x. bindE (sequenceE rs) (\<lambda>xs. Inr (x # xs)))"

definition py_index :: "'a list \<Rightarrow> nat \<Rightarrow> error + 'a" where
  "py_index xs i = (if i < length xs then Inr (xs ! i) else Inl IndexError)"

section \<open>The collaborators of \<^verbatim>\<open>blocks.py\<close>\<close>

subsection \<open>\<^verbatim>\<open>utils\<close>: integers and hex text\<close>

text \<open>
  Modelled from the spec: \<^verbatim>\<open>utils.int_to_big_endian\<close> (imported as \<^verbatim>\<open>encode_int\<close>) and
  \<^verbatim>\<open>utils.big_endian_to_int\<close> (imported as \<^verbatim>\<open>decode_int\<close>) are not in the sources.
  The spec gives "big-endian integer to bytes conversion with the rule that an
  all-zero/empty byte string decodes to integer 0 and integer 0 encodes to an empty byte
  string (canonical minimal-width encoding, no leading zero bytes)", over unsigned
  integers; a negative integer has no encoding and raises.
\<close>

fun int_to_bytes :: "nat \<Rightarrow> string" where
  "int_to_bytes n = (if n = 0 then [] else int_to_bytes (n div 256) @ [char_of (n mod 256)])"

declare int_to_bytes.simps [simp del]

definition encode_int :: "int \<Rightarrow> error + string" where
  "encode_int n = (if n < 0 then Inl TypeError else Inr (int_to_bytes (nat n)))"

definition decode_int :: "string \<Rightarrow> int" where
  "decode_int s = foldl (\<lambda>a c. a * 256 + int (of_char c)) 0 s"

text \<open>
  Modelled from the spec: \<^verbatim>\<open>utils.recursive_int_to_big_endian\<close> is not in the sources; it
  replaces every integer of a nested value by its big-endian bytes.
\<close>

fun recursive_int_to_big_endian :: "pyval \<Rightarrow> error + pyval" where
  "recursive_int_to_big_endian (PInt n) = bindE (encode_int n) (\<lambda>s. Inr (PStr s))"
| "recursive_int_to_big_endian (PStr s) = Inr (PStr s)"
| "recursive_int_to_big_endian (PList xs) =
     bindE (sequenceE (map recursive_int_to_big_endian xs)) (\<lambda>ys. Inr (PList ys))"

text \<open>
  Modelled from the spec: \<^verbatim>\<open>utils.coerce_to_bytes\<close> is not in the sources; a storage key
  is "an arbitrary-width integer key (encoded canonically as bytes)", and a key that is
  bytes already is kept.
\<close>

definition coerce_to_bytes :: "pyval \<Rightarrow> error + string" where
  "coerce_to_bytes v =
     (case v of PInt n \<Rightarrow> encode_int n | PStr s \<Rightarrow> Inr s | PList xs \<Rightarrow> Inl TypeError)"

text \<open>
  Python 2's \<^verbatim>\<open>s.decode('hex')\<close> and \<^verbatim>\<open>s.encode('hex')\<close>: decoding accepts both
  cases and raises \<^verbatim>\<open>TypeError\<close> on an odd length or a non-hex digit; encoding writes
  lowercase digits.
\<close>

definition hex_val :: "char \<Rightarrow> nat option" where
  "hex_val c =
     (let n = (of_char c :: nat) in
      if 48 \<le> n \<and> n \<le> 57 then Some (n - 48)
      else if 97 \<le> n \<and> n \<le> 102 then Some (n - 87)
      else if 65 \<le> n \<and> n \<le> 70 then Some (n - 55)
      else None)"

definition hex_digit :: "nat \<Rightarrow> char" where
  "hex_digit d = (if d < 10 then char_of (48 + d) else char_of (87 + d))"

fun hex_decode :: "string \<Rightarrow> error + string" where
  "hex_decode [] = Inr []"
| "hex_decode [c] = Inl TypeError"
| "hex_decode (c # d # r) =
     (case (hex_val c, hex_val d) of
        (Some x, Some y) \<Rightarrow> bindE (hex_decode r) (\<lambda>s. Inr (char_of (16 * x + y) # s))
      | _ \<Rightarrow> Inl TypeError)"

definition hex_encode :: "string \<Rightarrow> string" where
  "hex_encode s =
     concat (map (\<lambda>c. [hex_digit ((of_char c :: nat) div 16), hex_digit ((of_char c :: nat) mod 16)]) s)"

subsection \<open>Digest, canonical encoding and transactions\<close>

text \<open>
  The digest \<^verbatim>\<open>utils.sha3\<close>, the canonical encoding \<^verbatim>\<open>rlp.encode\<close> with its inverse,
  and the class \<^verbatim>\<open>transactions.Transaction\<close> are not in the sources and the spec keeps
  them opaque ("an opaque deterministic digest function", "an opaque deterministic
  encode/decode primitive"): they are parameters of every operation. The type \<open>'tx\<close> is
  the type of Transaction objects.
\<close>

record 'tx prims =
  sha3 :: "string \<Rightarrow> string"
  rlp_encode :: "pyval \<Rightarrow> string"
  rlp_decode :: "string \<Rightarrow> pyval option"
  Transaction_new :: "pyval \<Rightarrow> error + 'tx"
  Transaction_serialize :: "'tx \<Rightarrow> error + pyval"

text \<open>The encoding takes nested lists of byte strings; an integer raises.\<close>

fun int_free :: "pyval \<Rightarrow> bool" where
  "int_free (PStr s) = True"
| "int_free (PInt n) = False"
| "int_free (PList xs) = list_all int_free xs"

definition rlp_enc :: "'tx prims \<Rightarrow> pyval \<Rightarrow> error + string" where
  "rlp_enc P v = (if int_free v then Inr (rlp_encode P v) else Inl TypeError)"

subsection \<open>\<^verbatim>\<open>trie\<close>: the authenticated store\<close>

text \<open>
  Modelled from the spec: the classes \<^verbatim>\<open>trie.Trie\<close> and \<^verbatim>\<open>trie.DB\<close> and the constant
  \<^verbatim>\<open>trie.BLANK_NODE\<close> are not in the sources. The spec gives "a versioned key-value store
  addressed by a root digest; supports get/update/delete by key, content-addressed blob
  put/get, and commit", whose "root digest cryptographically commits to its entire
  contents", a blank digest for the empty state, an append-only discipline (a write
  never changes what an earlier root resolves to), and "two independently addressable
  versioned stores" for the world state and the per-account storage, "linked only by the
  storage-root digest stored in the account record". A version is the listing of the
  keys and values under one root; its root is the digest of its canonical encoding. A
  root that is not blank and resolves to no version is a store inconsistency, a fatal
  error.
\<close>

definition BLANK_NODE :: string where
  "BLANK_NODE = []"

record store =
  state_nodes :: "string \<rightharpoonup> (string \<times> string list) list"
  storage_nodes :: "string \<rightharpoonup> (string \<times> string) list"
  blobs :: "string \<rightharpoonup> string"
  durable :: "string \<rightharpoonup> string"

record trie =
  root :: string
  db :: store

definition acct_node :: "(string \<times> string list) list \<Rightarrow> pyval" where
  "acct_node m = PList (map (\<lambda>(k, a). PList [PStr k, PList (map PStr a)]) m)"

definition slot_node :: "(string \<times> string) list \<Rightarrow> pyval" where
  "slot_node m = PList (map (\<lambda>(k, v). PList [PStr k, PStr v]) m)"

definition trie_load :: "(string \<rightharpoonup> 'a list) \<Rightarrow> string \<Rightarrow> error + 'a list" where
  "trie_load vs r =
     (if r = BLANK_NODE then Inr []
      else (case vs r of None \<Rightarrow> Inl StoreError | Some m \<Rightarrow> Inr m))"

definition trie_store ::
  "'tx prims \<Rightarrow> ('a list \<Rightarrow> pyval) \<Rightarrow> (string \<rightharpoonup> 'a list) \<Rightarrow> 'a list \<Rightarrow> string \<times> (string \<rightharpoonup> 'a list)" where
  "trie_store P ser vs m =
     (if m = [] then (BLANK_NODE, vs)
      else (let r = sha3 P (rlp_encode P (ser m)) in (r, vs(r \<mapsto> m))))"

text \<open>\<^verbatim>\<open>Trie.get\<close>, \<^verbatim>\<open>Trie.update\<close> and \<^verbatim>\<open>Trie.delete\<close> of the world-state trie.\<close>

definition state_trie_get :: "trie \<Rightarrow> string \<Rightarrow> error + string list option" where
  "state_trie_get t k = bindE (trie_load (state_nodes (db t)) (root t)) (\<lambda>m. Inr (map_of m k))"

definition state_trie_update :: "'tx prims \<Rightarrow> trie \<Rightarrow> string \<Rightarrow> string list \<Rightarrow> error + trie" where
  "state_trie_update P t k v =
     bindE (trie_load (state_nodes (db t)) (root t)) (\<lambda>m.
       (case trie_store P acct_node (state_nodes (db t)) (AList.update k v m) of
          (r, vs) \<Rightarrow> Inr (t\<lparr>root := r, db := (db t)\<lparr>state_nodes := vs\<rparr>\<rparr>)))"

text \<open>The same operations of a storage sub-trie.\<close>

definition storage_trie_get :: "trie \<Rightarrow> string \<Rightarrow> error + string option" where
  "storage_trie_get t k = bindE (trie_load (storage_nodes (db t)) (root t)) (\<lambda>m. Inr (map_of m k))"

definition storage_trie_update :: "'tx prims \<Rightarrow> trie \<Rightarrow> string \<Rightarrow> string \<Rightarrow> error + trie" where
  "storage_trie_update P t k v =
     bindE (trie_load (storage_nodes (db t)) (root t)) (\<lambda>m.
       (case trie_store P slot_node (storage_nodes (db t)) (AList.update k v m) of
          (r, vs) \<Rightarrow> Inr (t\<lparr>root := r, db := (db t)\<lparr>storage_nodes := vs\<rparr>\<rparr>)))"

definition storage_trie_delete :: "'tx prims \<Rightarrow> trie \<Rightarrow> string \<Rightarrow> error + trie" where
  "storage_trie_delete P t k =
     bindE (trie_load (storage_nodes (db t)) (root t)) (\<lambda>m.
       (case trie_store P slot_node (storage_nodes (db t)) (AList.delete k m) of
          (r, vs) \<Rightarrow> Inr (t\<lparr>root := r, db := (db t)\<lparr>storage_nodes := vs\<rparr>\<rparr>)))"

definition storage_trie_to_dict :: "trie \<Rightarrow> error + (string \<times> string) list" where
  "storage_trie_to_dict t = trie_load (storage_nodes (db t)) (root t)"

text \<open>
  \<^verbatim>\<open>DB.get\<close>, \<^verbatim>\<open>DB.put\<close> and \<^verbatim>\<open>DB.commit\<close>: the bytes stored under a digest, the empty
  string when there are none (line 66 of \<^verbatim>\<open>blocks.py\<close> tests for it). A blob that is put
  is pending until the database is committed; \<open>durable\<close> holds the blobs the last commit
  wrote through, which are the ones a crash leaves.
\<close>

definition db_get :: "'tx prims \<Rightarrow> store \<Rightarrow> string \<Rightarrow> string" where
  "db_get P s k =
     (case blobs s k of Some v \<Rightarrow> v
      | None \<Rightarrow>
         (case state_nodes s k of Some m \<Rightarrow> rlp_encode P (acct_node m)
          | None \<Rightarrow>
             (case storage_nodes s k of Some m \<Rightarrow> rlp_encode P (slot_node m)
              | None \<Rightarrow> [])))"

definition db_put :: "store \<Rightarrow> string \<Rightarrow> string \<Rightarrow> store" where
  "db_put s k v = s\<lparr>blobs := (blobs s)(k \<mapsto> v)\<rparr>"

definition db_commit :: "store \<Rightarrow> store" where
  "db_commit s = s\<lparr>durable := blobs s\<rparr>"

section \<open>\<^verbatim>\<open>blocks.py\<close>\<close>

definition ACCT_RLP_LENGTH :: nat where "ACCT_RLP_LENGTH = 4"
definition NONCE_INDEX :: nat where "NONCE_INDEX = 0"
definition BALANCE_INDEX :: nat where "BALANCE_INDEX = 1"
definition CODE_INDEX :: nat where "CODE_INDEX = 2"
definition STORAGE_INDEX :: nat where "STORAGE_INDEX = 3"

text \<open>\<^verbatim>\<open>cast_block_header_from_rlp_decoded\<close>, lines 26 to 33.\<close>

definition cast_block_header_from_rlp_decoded ::
  "string \<Rightarrow> string \<Rightarrow> string \<Rightarrow> string \<Rightarrow> string \<Rightarrow> string \<Rightarrow> string \<Rightarrow> string \<Rightarrow> string \<Rightarrow> pyval list" where
  "cast_block_header_from_rlp_decoded prevhash uncles_root coinbase state transactions_root
       difficulty timestamp extradata nonce =
     [PStr prevhash, PStr uncles_root, PStr (hex_encode coinbase), PStr state,
      PStr transactions_root, PInt (decode_int difficulty), PInt (decode_int timestamp),
      PStr extradata, PInt (decode_int nonce)]"

record 'tx block =
  reward :: int
  gas_consumed :: int
  gaslimit :: int
  number :: int
  prevhash :: pyval
  uncles_root :: pyval
  coinbase :: pyval
  state :: trie
  transactions_root :: pyval
  difficulty :: pyval
  timestamp :: pyval
  extradata :: pyval
  nonce :: pyval
  transactions :: "'tx list"
  uncles :: pyval

text \<open>\<^verbatim>\<open>Block.serialize\<close> and \<^verbatim>\<open>Block.hash\<close>, lines 158 to 170 and 198 to 199.\<close>

definition encode_int_val :: "pyval \<Rightarrow> error + string" where
  "encode_int_val v = (case v of PInt n \<Rightarrow> encode_int n | _ \<Rightarrow> Inl TypeError)"

definition decode_hex_val :: "pyval \<Rightarrow> error + string" where
  "decode_hex_val v = (case v of PStr s \<Rightarrow> hex_decode s | _ \<Rightarrow> Inl TypeError)"

definition serialize_struct :: "'tx prims \<Rightarrow> 'tx block \<Rightarrow> error + pyval" where
  "serialize_struct P b =
     bindE (sequenceE (map (Transaction_serialize P) (transactions b))) (\<lambda>txlist.
     bindE (encode_int (number b)) (\<lambda>n.
     bindE (rlp_enc P (uncles b)) (\<lambda>ue.
     bindE (decode_hex_val (coinbase b)) (\<lambda>cb.
     bindE (rlp_enc P (PList txlist)) (\<lambda>te.
     bindE (encode_int_val (difficulty b)) (\<lambda>d.
     bindE (encode_int_val (timestamp b)) (\<lambda>ts.
     bindE (encode_int_val (nonce b)) (\<lambda>nc.
       Inr (PList [PList [PStr n, prevhash b, PStr (sha3 P ue), PStr cb,
                          PStr (root (state b)), PStr (sha3 P te), PStr d, PStr ts,
                          extradata b, PStr nc],
                   PList txlist, uncles b])))))))))"

definition serialize :: "'tx prims \<Rightarrow> 'tx block \<Rightarrow> error + string" where
  "serialize P b = bindE (serialize_struct P b) (rlp_enc P)"

definition hash :: "'tx prims \<Rightarrow> 'tx block \<Rightarrow> error + string" where
  "hash P b = bindE (serialize P b) (\<lambda>s. Inr (sha3 P s))"

text \<open>
  \<^verbatim>\<open>Block.__init__\<close>, lines 38 to 67. The attributes are assigned from the header
  positions as they come (\<open>Block_fields\<close>); the argument of \<^verbatim>\<open>logger.debug\<close> at line 58
  is computed whatever the logging level, so the constructor raises when \<^verbatim>\<open>hash\<close>
  does; the three verifications follow when \<^verbatim>\<open>validate\<close> is true. The store argument
  is the database \<^verbatim>\<open>STATEDB_DIR\<close> names, which every \<^verbatim>\<open>Trie\<close> of the process shares. A
  \<^verbatim>\<open>Trie\<close> is rooted at a digest, so a header whose state entry is no byte string is
  refused where the trie is opened (line 48); a header that is too short raises
  \<^verbatim>\<open>IndexError\<close> at the first position it lacks.
\<close>

definition Block_fields :: "store \<Rightarrow> pyval list \<Rightarrow> string \<Rightarrow> 'tx list \<Rightarrow> pyval \<Rightarrow> 'tx block" where
  "Block_fields dbs header r txs uncs =
     \<lparr>reward = 10 ^ 18, gas_consumed = 0, gaslimit = 1000000, number = 0,
      prevhash = header ! 0, uncles_root = header ! 1, coinbase = header ! 2,
      state = \<lparr>root = r, db = dbs\<rparr>, transactions_root = header ! 4,
      difficulty = header ! 5, timestamp = header ! 6, extradata = header ! 7,
      nonce = header ! 8, transactions = txs, uncles = uncs\<rparr>"

definition verify :: "'tx prims \<Rightarrow> pyval list \<Rightarrow> 'tx block \<Rightarrow> error + 'tx block" where
  "verify P transaction_list b =
     bindE (recursive_int_to_big_endian (PList transaction_list)) (\<lambda>tl.
     bindE (rlp_enc P tl) (\<lambda>te.
       if PStr (sha3 P te) \<noteq> transactions_root b
       then Inl (Exception ''Transaction list root hash does not match!'')
       else bindE (rlp_enc P (uncles b)) (\<lambda>ue.
         if PStr (sha3 P ue) \<noteq> uncles_root b
         then Inl (Exception ''Uncle root hash does not match!'')
         else if root (state b) \<noteq> BLANK_NODE \<and> db_get P (db (state b)) (root (state b)) = []
         then Inl (Exception ''State Merkle root not found in database!'')
         else Inr b)))"

definition Block_init ::
  "'tx prims \<Rightarrow> store \<Rightarrow> pyval list \<Rightarrow> pyval list \<Rightarrow> pyval \<Rightarrow> bool \<Rightarrow> error + 'tx block" where
  "Block_init P dbs header transaction_list uncs validate =
     (if length header < 4 then Inl IndexError
      else (case header ! 3 of
              PStr r \<Rightarrow>
                if length header < 9 then Inl IndexError
                else bindE (sequenceE (map (Transaction_new P) transaction_list)) (\<lambda>txs.
                  (let b = Block_fields dbs header r txs uncs in
                   bindE (hash P b) (\<lambda>h.
                     if validate then verify P transaction_list b else Inr b)))
            | _ \<Rightarrow> Inl TypeError))"

text \<open>The indexed accessors, lines 71 to 94. An address of 40 characters is hex text.\<close>

definition normalize_address :: "string \<Rightarrow> error + string" where
  "normalize_address address = (if length address = 40 then hex_decode address else Inr address)"

definition blank_acct :: "string list" where
  "blank_acct = [[], [], [], []]"

definition load_acct :: "'tx block \<Rightarrow> string \<Rightarrow> error + string list" where
  "load_acct b a =
     bindE (state_trie_get (state b) a) (\<lambda>g.
       Inr (case g of None \<Rightarrow> blank_acct | Some acct \<Rightarrow> if acct = [] then blank_acct else acct))"

definition get_index :: "'tx block \<Rightarrow> string \<Rightarrow> nat \<Rightarrow> error + string" where
  "get_index b address index =
     bindE (normalize_address address) (\<lambda>a.
     bindE (load_acct b a) (\<lambda>acct. py_index acct index))"

definition set_index :: "'tx prims \<Rightarrow> 'tx block \<Rightarrow> string \<Rightarrow> nat \<Rightarrow> string \<Rightarrow> error + 'tx block" where
  "set_index P b address index v =
     bindE (normalize_address address) (\<lambda>a.
     bindE (load_acct b a) (\<lambda>acct.
       if index < length acct
       then bindE (state_trie_update P (state b) a (acct[index := v])) (\<lambda>t. Inr (b\<lparr>state := t\<rparr>))
       else Inl IndexError))"

definition delta_index ::
  "'tx prims \<Rightarrow> 'tx block \<Rightarrow> string \<Rightarrow> nat \<Rightarrow> int \<Rightarrow> error + bool \<times> 'tx block" where
  "delta_index P b address index v =
     bindE (normalize_address address) (\<lambda>a.
     bindE (load_acct b a) (\<lambda>acct.
     bindE (py_index acct index) (\<lambda>f.
       if decode_int f + v < 0 then Inr (False, b)
       else bindE (encode_int (decode_int f + v)) (\<lambda>e.
            bindE (state_trie_update P (state b) a (acct[index := e])) (\<lambda>t.
              Inr (True, b\<lparr>state := t\<rparr>))))))"

text \<open>Nonce, balance, code and storage, lines 96 to 133.\<close>

definition get_nonce :: "'tx block \<Rightarrow> string \<Rightarrow> error + int" where
  "get_nonce b address = bindE (get_index b address NONCE_INDEX) (\<lambda>f. Inr (decode_int f))"

definition increment_nonce :: "'tx prims \<Rightarrow> 'tx block \<Rightarrow> string \<Rightarrow> error + bool \<times> 'tx block" where
  "increment_nonce P b address = delta_index P b address NONCE_INDEX 1"

definition get_balance :: "'tx block \<Rightarrow> string \<Rightarrow> error + int" where
  "get_balance b address = bindE (get_index b address BALANCE_INDEX) (\<lambda>f. Inr (decode_int f))"

definition set_balance :: "'tx prims \<Rightarrow> 'tx block \<Rightarrow> string \<Rightarrow> int \<Rightarrow> error + 'tx block" where
  "set_balance P b address v =
     bindE (encode_int v) (\<lambda>e. set_index P b address BALANCE_INDEX e)"

definition delta_balance ::
  "'tx prims \<Rightarrow> 'tx block \<Rightarrow> string \<Rightarrow> int \<Rightarrow> error + bool \<times> 'tx block" where
  "delta_balance P b address v = delta_index P b address BALANCE_INDEX v"

definition get_code :: "'tx prims \<Rightarrow> 'tx block \<Rightarrow> string \<Rightarrow> error + string" where
  "get_code P b address =
     bindE (get_index b address CODE_INDEX) (\<lambda>codehash.
       Inr (if codehash \<noteq> [] then db_get P (db (state b)) codehash else []))"

text \<open>
  \<^verbatim>\<open>set_code\<close>, lines 115 to 118, statement by statement. The database is an object the
  block shares, so what lines 116 and 117 did to it stays done when \<^verbatim>\<open>set_index\<close> at line
  118 raises: \<open>set_code_run\<close> gives the block as the call leaves it, whether it returns
  or raises, with the exception if there is one; \<open>set_code\<close> is the call as the other
  operations see it.
\<close>

definition set_code_run ::
  "'tx prims \<Rightarrow> 'tx block \<Rightarrow> string \<Rightarrow> string \<Rightarrow> 'tx block \<times> error option" where
  "set_code_run P b address v =
     (let s1 = db_put (db (state b)) (sha3 P v) v;
          s2 = db_commit s1;
          b2 = b\<lparr>state := (state b)\<lparr>db := s2\<rparr>\<rparr>
      in (case set_index P b2 address CODE_INDEX (sha3 P v) of
            Inl e \<Rightarrow> (b2, Some e)
          | Inr b3 \<Rightarrow> (b3, None)))"

definition set_code :: "'tx prims \<Rightarrow> 'tx block \<Rightarrow> string \<Rightarrow> string \<Rightarrow> error + 'tx block" where
  "set_code P b address v =
     (case snd (set_code_run P b address v) of
        None \<Rightarrow> Inr (fst (set_code_run P b address v))
      | Some e \<Rightarrow> Inl e)"

definition get_storage :: "'tx block \<Rightarrow> string \<Rightarrow> error + trie" where
  "get_storage b address =
     bindE (get_index b address STORAGE_INDEX) (\<lambda>r. Inr \<lparr>root = r, db = db (state b)\<rparr>)"

definition get_storage_data :: "'tx block \<Rightarrow> string \<Rightarrow> pyval \<Rightarrow> error + int" where
  "get_storage_data b address index =
     bindE (get_storage b address) (\<lambda>t.
     bindE (coerce_to_bytes index) (\<lambda>k.
     bindE (storage_trie_get t k) (\<lambda>g.
       Inr (decode_int (case g of None \<Rightarrow> [] | Some v \<Rightarrow> v)))))"

definition set_storage_data ::
  "'tx prims \<Rightarrow> 'tx block \<Rightarrow> string \<Rightarrow> pyval \<Rightarrow> int \<Rightarrow> error + 'tx block" where
  "set_storage_data P b address index val =
     bindE (get_storage b address) (\<lambda>t.
     bindE (if val \<noteq> 0
            then bindE (coerce_to_bytes index) (\<lambda>k.
                 bindE (encode_int val) (\<lambda>e. storage_trie_update P t k e))
            else bindE (coerce_to_bytes index) (\<lambda>k. storage_trie_delete P t k)) (\<lambda>t'.
       set_index P (b\<lparr>state := (state b)\<lparr>db := db t'\<rparr>\<rparr>) address STORAGE_INDEX (root t')))"

text \<open>
  \<^verbatim>\<open>Block.account_to_dict\<close>, lines 135 to 146. The storage dictionary is built key by
  key in the order of the sub-trie's listing, a later key that decodes to the same
  integer replacing the earlier one.
\<close>

record acct_dict =
  dict_nonce :: int
  dict_balance :: int
  dict_code :: string
  dict_storage :: "(int \<times> int) list"

definition storage_dict :: "(string \<times> string) list \<Rightarrow> (int \<times> int) list" where
  "storage_dict stdict = foldl (\<lambda>d (k, v). AList.update (decode_int k) (decode_int v) d) [] stdict"

definition account_to_dict :: "'tx prims \<Rightarrow> 'tx block \<Rightarrow> string \<Rightarrow> error + acct_dict" where
  "account_to_dict P b address =
     bindE (normalize_address address) (\<lambda>a.
     bindE (load_acct b a) (\<lambda>acct.
     bindE (py_index acct CODE_INDEX) (\<lambda>chash.
     bindE (py_index acct STORAGE_INDEX) (\<lambda>sr.
     bindE (storage_trie_to_dict \<lparr>root = sr, db = db (state b)\<rparr>) (\<lambda>stdict.
     bindE (py_index acct NONCE_INDEX) (\<lambda>n.
     bindE (py_index acct BALANCE_INDEX) (\<lambda>bal.
       Inr \<lparr>dict_nonce = decode_int n, dict_balance = decode_int bal,
            dict_code = (if chash \<noteq> [] then hex_encode (db_get P (db (state b)) chash) else []),
            dict_storage = storage_dict stdict\<rparr>)))))))"

text \<open>\<^verbatim>\<open>Block.snapshot\<close> and \<^verbatim>\<open>Block.revert\<close>, lines 149 to 154.\<close>

record snap =
  snap_state :: string
  snap_gas :: int

definition snapshot :: "'tx block \<Rightarrow> snap \<times> 'tx block" where
  "snapshot b = (\<lparr>snap_state = root (state b), snap_gas = gas_consumed b\<rparr>, b)"

definition revert :: "'tx block \<Rightarrow> snap \<Rightarrow> 'tx block" where
  "revert b mysnapshot =
     b\<lparr>state := (state b)\<lparr>root := snap_state mysnapshot\<rparr>, gas_consumed := snap_gas mysnapshot\<rparr>"

text \<open>
  \<^verbatim>\<open>genesis\<close>, lines 202 to 207. The allocation dictionary is the list of its items in
  iteration order.
\<close>

definition genesis_header :: "pyval list" where
  "genesis_header =
     [PStr [], PStr [], PStr (replicate 40 (CHR ''0'')), PStr BLANK_NODE, PStr [],
      PInt (2 ^ 23), PInt 0, PStr [], PInt 0]"

fun set_balances :: "'tx prims \<Rightarrow> 'tx block \<Rightarrow> (string \<times> int) list \<Rightarrow> error + 'tx block" where
  "set_balances P b [] = Inr b"
| "set_balances P b ((addr, v) # rest) =
     bindE (set_balance P b addr v) (\<lambda>b'. set_balances P b' rest)"

definition genesis :: "'tx prims \<Rightarrow> store \<Rightarrow> (string \<times> int) list \<Rightarrow> error + 'tx block" where
  "genesis P dbs initial_alloc =
     bindE (Block_init P dbs genesis_header [] (PList []) False) (\<lambda>block.
       set_balances P block initial_alloc)"

section \<open>Assumptions on the primitives, a reference instantiation, auxiliary notions\<close>

text \<open>A digest has a fixed positive width, so it is never the blank root.\<close>

definition digest_ok :: "'tx prims \<Rightarrow> bool" where
  "digest_ok P = (\<forall>x. sha3 P x \<noteq> BLANK_NODE)"

text \<open>
  A reference instantiation of the primitives, on which the assumptions hold: a digest
  that tags its argument, a self-delimiting encoding of nested byte strings with its
  decoder, and transactions that keep their raw form.
\<close>

fun ref_str :: "string \<Rightarrow> string" where
  "ref_str [] = ''.''"
| "ref_str (c # s) = CHR '','' # c # ref_str s"

fun ref_encode :: "pyval \<Rightarrow> string" where
  "ref_encode (PStr s) = CHR ''s'' # ref_str s"
| "ref_encode (PInt n) = []"
| "ref_encode (PList xs) = CHR ''['' # concat (map ref_encode xs) @ '']''"

fun ref_run :: "string option \<Rightarrow> pyval list \<Rightarrow> pyval list list \<Rightarrow> string \<Rightarrow> pyval option" where
  "ref_run m cur stk [] = (case (m, cur, stk) of (None, [v], []) \<Rightarrow> Some v | _ \<Rightarrow> None)"
| "ref_run m cur stk (c # r) =
     (case m of
        Some acc \<Rightarrow>
          (if c = CHR '','' then (case r of [] \<Rightarrow> None | d # r' \<Rightarrow> ref_run (Some (d # acc)) cur stk r')
           else if c = CHR ''.'' then ref_run None (PStr (rev acc) # cur) stk r
           else None)
      | None \<Rightarrow>
          (if c = CHR ''s'' then ref_run (Some []) cur stk r
           else if c = CHR ''['' then ref_run None [] (cur # stk) r
           else if c = CHR '']'' then (case stk of [] \<Rightarrow> None | t # stk' \<Rightarrow> ref_run None (PList (rev cur) # t) stk' r)
           else None))"

definition ref_decode :: "string \<Rightarrow> pyval option" where
  "ref_decode bs = ref_run None [] [] bs"

definition ref_prims :: "pyval prims" where
  "ref_prims = \<lparr>sha3 = (\<lambda>s. CHR ''#'' # s), rlp_encode = ref_encode, rlp_decode = ref_decode,
     Transaction_new = Inr, Transaction_serialize = Inr\<rparr>"

definition empty_store :: store where
  "empty_store =
     \<lparr>state_nodes = Map.empty, storage_nodes = Map.empty, blobs = Map.empty, durable = Map.empty\<rparr>"

definition blank_block :: "pyval block" where
  "blank_block = Block_fields empty_store genesis_header BLANK_NODE [] (PList [])"

text \<open>
  The two branches of \<^verbatim>\<open>set_storage_data\<close> (lines 129 to 132) on a key in byte form, and
  what they leave under the sub-trie's root.
\<close>

definition storage_write :: "'tx prims \<Rightarrow> trie \<Rightarrow> string \<Rightarrow> int \<Rightarrow> error + trie" where
  "storage_write P t k val =
     (if val \<noteq> 0 then storage_trie_update P t k (int_to_bytes (nat val)) else storage_trie_delete P t k)"

definition storage_written :: "string \<Rightarrow> int \<Rightarrow> (string \<times> string) list \<Rightarrow> (string \<times> string) list" where
  "storage_written k val m =
     (if val \<noteq> 0 then AList.update k (int_to_bytes (nat val)) m else AList.delete k m)"

text \<open>Every account record under the root of the world state has its four fields.\<close>

definition wf_accounts :: "'tx block \<Rightarrow> bool" where
  "wf_accounts b = (\<forall>a. \<exists>acct. load_acct b a = Inr acct \<and> length acct = 4)"

text \<open>The block \<^verbatim>\<open>genesis\<close> builds before it sets a balance.\<close>

definition genesis_block :: "store \<Rightarrow> 'tx block" where
  "genesis_block dbs = Block_fields dbs genesis_header BLANK_NODE [] (PList [])"

text \<open>
  Parsing serialized bytes back: the canonical decoding of \<^verbatim>\<open>[header, transaction_list,
  uncles]\<close>, handed to the constructor with validation disabled.
\<close>

definition rebuild :: "'tx prims \<Rightarrow> store \<Rightarrow> string \<Rightarrow> error + 'tx block" where
  "rebuild P dbs bytes =
     (case rlp_decode P bytes of
        Some (PList [PList header, PList transaction_list, uncs]) \<Rightarrow>
          Block_init P dbs header transaction_list uncs False
      | _ \<Rightarrow> Inl TypeError)"

text \<open>
  A header of canonical-byte fields as the encoding carries it (a binary coinbase of 20
  bytes, the difficulty as the byte 1), and a header whose roots are the digests of the
  empty lists under the reference instantiation.
\<close>

definition wire_header :: "pyval list" where
  "wire_header =
     [PStr [], PStr [], PStr (replicate 20 (CHR 0x00)), PStr [], PStr [], PStr [CHR 0x01],
      PStr [], PStr [], PStr []]"

text \<open>
  The same header of canonical-byte fields with the roots of the empty transaction and
  uncle lists under the reference instantiation: none of the three verifications
  objects to it.
\<close>

definition wire_valid_header :: "pyval list" where
  "wire_valid_header =
     [PStr [], PStr ''#[]'', PStr (replicate 20 (CHR 0x00)), PStr BLANK_NODE, PStr ''#[]'',
      PStr [CHR 0x01], PStr [], PStr [], PStr []]"

text \<open>
  The header \<^verbatim>\<open>serialize\<close> writes for the genesis block under the reference
  instantiation: ten entries, the number first.
\<close>

definition genesis_wire_header :: "pyval list" where
  "genesis_wire_header =
     [PStr (int_to_bytes 0), PStr [], PStr ''#[]'', PStr (replicate 20 (char_of (0::nat))), PStr [],
      PStr ''#[]'', PStr (int_to_bytes (2 ^ 23)), PStr (int_to_bytes 0), PStr [], PStr (int_to_bytes 0)]"

definition valid_header :: "pyval list" where
  "valid_header =
     [PStr [], PStr ''#[]'', PStr (replicate 40 (CHR ''0'')), PStr BLANK_NODE, PStr ''#[]'',
      PInt 1, PInt 0, PStr [], PInt 0]"

text \<open>
  The mutating operations of a ledger, and a finite sequence of them performed one after
  the other; the sequence stops at the first exception.
\<close>

datatype mutation =
    Delta_balance string int
  | Increment_nonce string
  | Set_balance string int
  | Set_code string string
  | Set_storage_data string pyval int
  | Set_gas_consumed int

fun apply_mutation :: "'tx prims \<Rightarrow> 'tx block \<Rightarrow> mutation \<Rightarrow> error + 'tx block" where
  "apply_mutation P b (Delta_balance a v) = bindE (delta_balance P b a v) (\<lambda>r. Inr (snd r))"
| "apply_mutation P b (Increment_nonce a) = bindE (increment_nonce P b a) (\<lambda>r. Inr (snd r))"
| "apply_mutation P b (Set_balance a v) = set_balance P b a v"
| "apply_mutation P b (Set_code a c) = set_code P b a c"
| "apply_mutation P b (Set_storage_data a k v) = set_storage_data P b a k v"
| "apply_mutation P b (Set_gas_consumed g) = Inr (b\<lparr>gas_consumed := g\<rparr>)"

fun apply_mutations :: "'tx prims \<Rightarrow> 'tx block \<Rightarrow> mutation list \<Rightarrow> error + 'tx block" where
  "apply_mutations P b [] = Inr b"
| "apply_mutations P b (m # ms) = bindE (apply_mutation P b m) (\<lambda>b'. apply_mutations P b' ms)"

text \<open>What the read accessors show of one address and one storage key.\<close>

definition observe ::
  "'tx prims \<Rightarrow> 'tx block \<Rightarrow> string \<Rightarrow> pyval \<Rightarrow>
     (error + int) \<times> (error + int) \<times> (error + string) \<times> (error + int) \<times> (error + acct_dict) \<times> snap" where
  "observe P b address index =
     (get_balance b address, get_nonce b address, get_code P b address,
      get_storage_data b address index, account_to_dict P b address, fst (snapshot b))"

text \<open>
  The digest is idealised as free of collisions, on code and on the encodings of the
  two kinds of version. A store is content-addressed when every entry sits under the
  digest of its own content, as every write of the operations above puts it; a block is
  consistent when its state root resolves and every code hash and storage root of an
  account under it resolves too.
\<close>

definition collision_free :: "'tx prims \<Rightarrow> bool" where
  "collision_free P =
     (inj (sha3 P) \<and> inj (\<lambda>m. rlp_encode P (acct_node m)) \<and> inj (\<lambda>m. rlp_encode P (slot_node m)))"

definition content_addressed :: "'tx prims \<Rightarrow> store \<Rightarrow> bool" where
  "content_addressed P s =
     ((\<forall>r m. state_nodes s r = Some m \<longrightarrow> r = sha3 P (rlp_encode P (acct_node m))) \<and>
      (\<forall>r m. storage_nodes s r = Some m \<longrightarrow> r = sha3 P (rlp_encode P (slot_node m))) \<and>
      (\<forall>k v. blobs s k = Some v \<longrightarrow> k = sha3 P v))"

definition consistent :: "'tx block \<Rightarrow> bool" where
  "consistent b =
     ((\<exists>m. trie_load (state_nodes (db (state b))) (root (state b)) = Inr m) \<and>
      (\<forall>a acct. load_acct b a = Inr acct \<longrightarrow>
         (CODE_INDEX < length acct \<longrightarrow>
            acct ! CODE_INDEX = [] \<or> blobs (db (state b)) (acct ! CODE_INDEX) \<noteq> None) \<and>
         (STORAGE_INDEX < length acct \<longrightarrow>
            (\<exists>sm. trie_load (storage_nodes (db (state b))) (acct ! STORAGE_INDEX) = Inr sm))))"

text \<open>A store extends another; a block differs from another by its ledger and gas counter only.\<close>

definition store_le :: "store \<Rightarrow> store \<Rightarrow> bool" where
  "store_le s s' =
     (state_nodes s \<subseteq>\<^sub>m state_nodes s' \<and> storage_nodes s \<subseteq>\<^sub>m storage_nodes s' \<and> blobs s \<subseteq>\<^sub>m blobs s')"

definition grows :: "'tx prims \<Rightarrow> 'tx block \<Rightarrow> 'tx block \<Rightarrow> bool" where
  "grows P b b' =
     (store_le (db (state b)) (db (state b')) \<and> content_addressed P (db (state b')) \<and>
      b'\<lparr>state := state b, gas_consumed := gas_consumed b\<rparr> = b)"

text \<open>
  What \<^verbatim>\<open>get_balance\<close> returns on the block \<^verbatim>\<open>genesis\<close> returns, and what
  \<^verbatim>\<open>get_code\<close> returns after a snapshot, a sequence of operations and the revert.
\<close>

definition genesis_balance :: "'tx prims \<Rightarrow> store \<Rightarrow> (string \<times> int) list \<Rightarrow> string \<Rightarrow> error + int" where
  "genesis_balance P dbs initial_alloc address =
     bindE (genesis P dbs initial_alloc) (\<lambda>block. get_balance block address)"

definition get_code_after ::
  "'tx prims \<Rightarrow> 'tx block \<Rightarrow> mutation list \<Rightarrow> string \<Rightarrow> error + string" where
  "get_code_after P b ms address =
     bindE (apply_mutations P b ms) (\<lambda>b'. get_code P (revert b' (fst (snapshot b))) address)"

text \<open>
  The block \<^verbatim>\<open>set_index\<close> leaves when it sets the code hash of an account to the digest
  of a code that was never stored.
\<close>

definition dangling_root :: string where
  "dangling_root = sha3 ref_prims (rlp_encode ref_prims (acct_node [(''alice'', [[], [], ''#code'', []])]))"

definition dangling_block :: "pyval block" where
  "dangling_block =
     blank_block\<lparr>state := \<lparr>root = dangling_root,
       db = empty_store\<lparr>state_nodes := [dangling_root \<mapsto> [(''alice'', [[], [], ''#code'', []])]]\<rparr>\<rparr>\<rparr>"

section \<open>Basic facts\<close>

lemma bindE_Inl [simp]: "bindE (Inl e) f = Inl e"
  by (simp add: bindE_def)

lemma bindE_Inr [simp]: "bindE (Inr x) f = f x"
  by (simp add: bindE_def)

lemma bindE_eq_Inr: "bindE m f = Inr y \<longleftrightarrow> (\<exists>x. m = Inr x \<and> f x = Inr y)"
  by (cases m) simp_all

lemma decode_int_nonneg: "0 \<le> decode_int s"
proof -
  have "0 \<le> a \<Longrightarrow> 0 \<le> foldl (\<lambda>a c. a * 256 + int (of_char c)) a s" for a :: int
    by (induction s arbitrary: a) simp_all
  then show ?thesis by (simp add: decode_int_def)
qed

lemma decode_int_append: "decode_int (s @ [c]) = decode_int s * 256 + int (of_char c)"
  by (simp add: decode_int_def)

lemma decode_int_to_bytes: "decode_int (int_to_bytes n) = int n"
proof (induction n rule: int_to_bytes.induct)
  case (1 n)
  show ?case
  proof (cases "n = 0")
    case True
    then show ?thesis by (simp add: int_to_bytes.simps decode_int_def)
  next
    case False
    have "int_to_bytes n = int_to_bytes (n div 256) @ [char_of (n mod 256)]"
      using False by (subst int_to_bytes.simps) simp
    then show ?thesis using 1 False
      by (simp add: decode_int_append zdiv_int zmod_int)
  qed
qed

lemma trie_load_store:
  assumes "digest_ok P"
  shows "trie_load (snd (trie_store P ser vs m)) (fst (trie_store P ser vs m)) = Inr m"
  using assms by (simp add: trie_store_def trie_load_def digest_ok_def Let_def)

lemma hex_val_digit: "d < 16 \<Longrightarrow> hex_val (hex_digit d) = Some d"
  by (auto simp: hex_val_def hex_digit_def Let_def)

lemma hex_decode_encode: "hex_decode (hex_encode s) = Inr s"
proof (induction s)
  case Nil
  then show ?case by (simp add: hex_encode_def)
next
  case (Cons c s)
  have "hex_encode (c # s) = hex_digit ((of_char c :: nat) div 16) # hex_digit ((of_char c :: nat) mod 16) # hex_encode s"
    by (simp add: hex_encode_def)
  moreover have "(of_char c :: nat) div 16 < 16"
    by (simp add: less_mult_imp_div_less)
  ultimately show ?case using Cons
    by (simp add: hex_val_digit)
qed

lemma ref_run_str: "ref_run (Some acc) cur stk (ref_str s @ r) = ref_run None (PStr (rev acc @ s) # cur) stk r"
  by (induction s arbitrary: acc) simp_all

lemma ref_run_encode:
  "int_free v \<Longrightarrow> ref_run None cur stk (ref_encode v @ r) = ref_run None (v # cur) stk r"
proof (induction v arbitrary: cur stk r)
  case (PStr s)
  then show ?case by (simp add: ref_run_str)
next
  case (PInt n)
  then show ?case by simp
next
  case (PList xs)
  have items: "\<And>cur stk r. set ys \<subseteq> set xs \<Longrightarrow>
      ref_run None cur stk (concat (map ref_encode ys) @ r) = ref_run None (rev ys @ cur) stk r" for ys
  proof (induction ys)
    case Nil
    then show ?case by simp
  next
    case (Cons y ys)
    have "int_free y" using Cons.prems PList.prems by (auto simp: list_all_iff)
    then show ?case using Cons PList.IH [of y] by simp
  qed
  show ?case using items [of xs "[]" "cur # stk" "CHR '']'' # r"]
    by simp
qed

lemma ref_decode_encode: "int_free v \<Longrightarrow> ref_decode (ref_encode v) = Some v"
  using ref_run_encode [of v "[]" "[]" "[]"] by (simp add: ref_decode_def)

lemma digest_ok_ref: "digest_ok ref_prims"
  by (simp add: digest_ok_def ref_prims_def BLANK_NODE_def)

lemma state_trie_update_load:
  assumes "digest_ok P" and "state_trie_update P t k v = Inr t'"
  shows "\<exists>m. trie_load (state_nodes (db t)) (root t) = Inr m \<and>
             trie_load (state_nodes (db t')) (root t') = Inr (AList.update k v m) \<and>
             storage_nodes (db t') = storage_nodes (db t) \<and> blobs (db t') = blobs (db t)"
proof -
  from assms(2) obtain m where m: "trie_load (state_nodes (db t)) (root t) = Inr m"
    and t': "t' = t\<lparr>root := fst (trie_store P acct_node (state_nodes (db t)) (AList.update k v m)),
                  db := (db t)\<lparr>state_nodes := snd (trie_store P acct_node (state_nodes (db t)) (AList.update k v m))\<rparr>\<rparr>"
    by (auto simp: state_trie_update_def bindE_eq_Inr case_prod_beta)
  show ?thesis using m trie_load_store [OF assms(1)] by (simp add: t')
qed

lemma write_acct_read:
  assumes "digest_ok P" and "state_trie_update P (state b) a acct = Inr t" and "acct \<noteq> []"
  shows "load_acct (b\<lparr>state := t\<rparr>) a = Inr acct"
    and "a' \<noteq> a \<Longrightarrow> load_acct (b\<lparr>state := t\<rparr>) a' = load_acct b a'"
proof -
  from state_trie_update_load [OF assms(1,2)] obtain m where
    m: "trie_load (state_nodes (db (state b))) (root (state b)) = Inr m"
    and m': "trie_load (state_nodes (db t)) (root t) = Inr (AList.update a acct m)"
    by blast
  show "load_acct (b\<lparr>state := t\<rparr>) a = Inr acct"
    using m' assms(3) by (simp add: load_acct_def state_trie_get_def update_conv')
  show "load_acct (b\<lparr>state := t\<rparr>) a' = load_acct b a'" if "a' \<noteq> a"
    using m m' that by (simp add: load_acct_def state_trie_get_def update_conv')
qed

lemma load_acct_nonempty: "load_acct b a = Inr acct \<Longrightarrow> acct \<noteq> []"
  by (auto simp: load_acct_def bindE_eq_Inr blank_acct_def split: option.splits if_splits)

lemma set_index_read:
  assumes "digest_ok P" and "set_index P b address index v = Inr b'"
  shows "get_index b' address index = Inr v"
proof -
  from assms(2) obtain a acct t where a: "normalize_address address = Inr a"
    and acct: "load_acct b a = Inr acct" and i: "index < length acct"
    and t: "state_trie_update P (state b) a (acct[index := v]) = Inr t" and b': "b' = b\<lparr>state := t\<rparr>"
    by (auto simp: set_index_def bindE_eq_Inr split: if_splits)
  have "acct[index := v] \<noteq> []" using i by auto
  from write_acct_read(1) [OF assms(1) t this] show ?thesis
    using a i by (simp add: get_index_def b' py_index_def)
qed

section \<open>Snapshot and revert: the frame\<close>

text \<open>
  Claim C10. \<^verbatim>\<open>revert\<close> changes the root digest of the ledger and the counter
  \<^verbatim>\<open>gas_consumed\<close>, to the values of the snapshot it is given, and nothing else: the
  reward, the gas limit, the number, every header attribute, the transactions, the
  uncles and the database keep their values. \<^verbatim>\<open>snapshot\<close> returns the root and the
  counter and leaves the block as it is.
\<close>

theorem revert_frame:
  "reward (revert b s) = reward b \<and> gaslimit (revert b s) = gaslimit b \<and>
   number (revert b s) = number b \<and> prevhash (revert b s) = prevhash b \<and>
   uncles_root (revert b s) = uncles_root b \<and> coinbase (revert b s) = coinbase b \<and>
   transactions_root (revert b s) = transactions_root b \<and>
   difficulty (revert b s) = difficulty b \<and> timestamp (revert b s) = timestamp b \<and>
   extradata (revert b s) = extradata b \<and> nonce (revert b s) = nonce b \<and>
   transactions (revert b s) = transactions b \<and> uncles (revert b s) = uncles b \<and>
   db (state (revert b s)) = db (state b) \<and>
   root (state (revert b s)) = snap_state s \<and> gas_consumed (revert b s) = snap_gas s \<and>
   snd (snapshot b) = b \<and>
   fst (snapshot b) = \<lparr>snap_state = root (state b), snap_gas = gas_consumed b\<rparr>"
  by (simp add: revert_def snapshot_def)

section \<open>Accounts with no entry\<close>

text \<open>
  Claim C7. For an address (binary, or hex text that decodes) with no entry under the
  root of the world state, every read accessor returns a value, the default one: the
  empty byte string for each of the four fields, 0 for the nonce and for the balance,
  empty code, and 0 for the storage data at every key that has a byte form.
\<close>

theorem absent_account_defaults:
  assumes "normalize_address address = Inr a"
    and "state_trie_get (state b) a = Inr None"
  shows "get_index b address NONCE_INDEX = Inr [] \<and> get_index b address BALANCE_INDEX = Inr [] \<and>
         get_index b address CODE_INDEX = Inr [] \<and> get_index b address STORAGE_INDEX = Inr [] \<and>
         get_nonce b address = Inr 0 \<and> get_balance b address = Inr 0 \<and>
         get_code P b address = Inr [] \<and>
         (\<forall>index k. coerce_to_bytes index = Inr k \<longrightarrow> get_storage_data b address index = Inr 0)"
proof -
  have acct: "load_acct b a = Inr blank_acct"
    using assms(2) by (simp add: load_acct_def)
  have idx: "get_index b address i = Inr []" if "i < 4" for i
  proof -
    have "blank_acct ! i = []" using that
      by (auto simp: blank_acct_def nth_Cons split: nat.splits)
    then show ?thesis using assms(1) acct that
      by (simp add: get_index_def py_index_def blank_acct_def)
  qed
  have st: "get_storage_data b address index = Inr 0" if "coerce_to_bytes index = Inr k" for index k
    using that idx [of STORAGE_INDEX]
    by (simp add: get_storage_data_def get_storage_def STORAGE_INDEX_def storage_trie_get_def
        trie_load_def BLANK_NODE_def decode_int_def)
  show ?thesis using idx [of NONCE_INDEX] idx [of BALANCE_INDEX] idx [of CODE_INDEX] idx [of STORAGE_INDEX] st
    by (simp add: NONCE_INDEX_def BALANCE_INDEX_def CODE_INDEX_def STORAGE_INDEX_def
        get_nonce_def get_balance_def get_code_def decode_int_def)
qed

theorem absent_account_defaults_witness:
  "get_index blank_block ''alice'' NONCE_INDEX = Inr [] \<and>
   get_balance blank_block ''alice'' = Inr 0 \<and>
   get_code ref_prims blank_block ''alice'' = Inr [] \<and>
   get_storage_data blank_block ''alice'' (PInt 7) = Inr 0"
proof -
  have n: "normalize_address ''alice'' = Inr ''alice''"
    by (simp add: normalize_address_def)
  have g: "state_trie_get (state blank_block) ''alice'' = Inr None"
    by (simp add: blank_block_def Block_fields_def state_trie_get_def trie_load_def)
  have c: "coerce_to_bytes (PInt 7) = Inr (int_to_bytes 7)"
    by (simp add: coerce_to_bytes_def encode_int_def)
  show ?thesis using absent_account_defaults [OF n g, of ref_prims] c by simp
qed

lemma set_index_unfold:
  assumes "set_index P b address index v = Inr b'"
  shows "\<exists>a acct t. normalize_address address = Inr a \<and> load_acct b a = Inr acct \<and> index < length acct \<and>
           state_trie_update P (state b) a (acct[index := v]) = Inr t \<and> b' = b\<lparr>state := t\<rparr>"
  using assms by (auto simp: set_index_def bindE_eq_Inr split: if_splits)

lemma set_index_frame:
  assumes "digest_ok P" and "set_index P b address index v = Inr b'"
  shows "blobs (db (state b')) = blobs (db (state b))"
    and "storage_nodes (db (state b')) = storage_nodes (db (state b))"
proof -
  from set_index_unfold [OF assms(2)] obtain a acct t where
    t: "state_trie_update P (state b) a (acct[index := v]) = Inr t" and b': "b' = b\<lparr>state := t\<rparr>"
    by blast
  from state_trie_update_load [OF assms(1) t]
  show "blobs (db (state b')) = blobs (db (state b))"
    and "storage_nodes (db (state b')) = storage_nodes (db (state b))"
    by (auto simp: b')
qed

lemma set_index_other:
  assumes "digest_ok P" and "set_index P b address index v = Inr b'"
    and "normalize_address address = Inr a" and "normalize_address address' = Inr a'" and "a' \<noteq> a"
  shows "get_index b' address' i = get_index b address' i"
proof -
  from set_index_unfold [OF assms(2)] assms(3) obtain acct t where
    acct: "load_acct b a = Inr acct" and i: "index < length acct"
    and t: "state_trie_update P (state b) a (acct[index := v]) = Inr t" and b': "b' = b\<lparr>state := t\<rparr>"
    by auto
  have "acct[index := v] \<noteq> []" using i by auto
  from write_acct_read(2) [OF assms(1) t this assms(5)] show ?thesis
    using assms(4) by (simp add: get_index_def b')
qed

lemma set_index_same:
  assumes "digest_ok P" and "set_index P b address index v = Inr b'"
    and "normalize_address address = Inr a" and "normalize_address address' = Inr a"
  shows "get_index b' address' index = Inr v"
  using set_index_read [OF assms(1,2)] assms(3,4) by (simp add: get_index_def)

section \<open>Deltas never go below zero\<close>

text \<open>
  Claim C3. Whenever the field of an account can be read (the address normalises, the
  world state resolves, the index is in range), its value decoded as an unsigned integer
  is never negative, and one call of \<^verbatim>\<open>delta_index\<close> does one of two things: if the
  decoded value plus the delta is negative it returns False and the block, its account
  records and its store are unchanged; otherwise it returns True and the field then
  reads as the encoding of the sum, which decodes to the sum. \<^verbatim>\<open>delta_balance\<close> and
  \<^verbatim>\<open>increment_nonce\<close> are \<^verbatim>\<open>delta_index\<close> on the balance, and on the nonce with delta
  1. So no sequence of calls ever leaves a balance that reads negative.
\<close>

theorem delta_index_nonnegative:
  assumes "digest_ok P" and "get_index b address index = Inr f"
  shows "0 \<le> decode_int f \<and>
         (decode_int f + v < 0 \<longrightarrow> delta_index P b address index v = Inr (False, b)) \<and>
         (0 \<le> decode_int f + v \<longrightarrow>
            (\<exists>b'. delta_index P b address index v = Inr (True, b') \<and>
                  get_index b' address index = Inr (int_to_bytes (nat (decode_int f + v))) \<and>
                  decode_int (int_to_bytes (nat (decode_int f + v))) = decode_int f + v)) \<and>
         delta_balance P b address v = delta_index P b address BALANCE_INDEX v \<and>
         increment_nonce P b address = delta_index P b address NONCE_INDEX 1 \<and>
         (\<forall>b0 a0 x. get_balance (b0 :: 'a block) a0 = Inr x \<longrightarrow> 0 \<le> x)"
proof -
  from assms(2) obtain a acct where a: "normalize_address address = Inr a"
    and acct: "load_acct b a = Inr acct" and i: "index < length acct" and f: "f = acct ! index"
    by (auto simp: get_index_def bindE_eq_Inr py_index_def split: if_splits)
  have neg: "delta_index P b address index v = Inr (False, b)" if "decode_int f + v < 0"
    using that a acct i f by (simp add: delta_index_def py_index_def)
  have pos: "\<exists>b'. delta_index P b address index v = Inr (True, b') \<and>
                  get_index b' address index = Inr (int_to_bytes (nat (decode_int f + v))) \<and>
                  decode_int (int_to_bytes (nat (decode_int f + v))) = decode_int f + v"
    if nn: "0 \<le> decode_int f + v"
  proof -
    let ?e = "int_to_bytes (nat (decode_int f + v))"
    obtain m where m: "trie_load (state_nodes (db (state b))) (root (state b)) = Inr m"
      using acct by (auto simp: load_acct_def state_trie_get_def bindE_eq_Inr)
    then obtain t where t: "state_trie_update P (state b) a (acct[index := ?e]) = Inr t"
      by (auto simp: state_trie_update_def case_prod_beta)
    have d: "delta_index P b address index v = Inr (True, b\<lparr>state := t\<rparr>)"
      using nn a acct i f t by (simp add: delta_index_def py_index_def encode_int_def)
    have "acct[index := ?e] \<noteq> []" using i by auto
    from write_acct_read(1) [OF assms(1) t this]
    have "get_index (b\<lparr>state := t\<rparr>) address index = Inr ?e"
      using a i by (simp add: get_index_def py_index_def)
    then show ?thesis using d nn by (simp add: decode_int_to_bytes)
  qed
  have bal: "0 \<le> x" if "get_balance (b0 :: 'a block) a0 = Inr x" for b0 a0 x
    using that decode_int_nonneg by (auto simp: get_balance_def bindE_eq_Inr)
  show ?thesis using neg pos bal decode_int_nonneg
    by (simp add: delta_balance_def increment_nonce_def)
qed

lemma blank_block_get_index:
  "length a \<noteq> 40 \<Longrightarrow> get_index blank_block a i = (if i < 4 then Inr [] else Inl IndexError)"
  by (auto simp: get_index_def normalize_address_def load_acct_def state_trie_get_def
      blank_block_def Block_fields_def trie_load_def blank_acct_def py_index_def nth_Cons
      split: nat.splits)

lemma set_index_succeeds:
  assumes "get_index b address index = Inr f"
  shows "\<exists>b'. set_index P b address index v = Inr b'"
proof -
  from assms obtain a acct where a: "normalize_address address = Inr a"
    and acct: "load_acct b a = Inr acct" and i: "index < length acct"
    by (auto simp: get_index_def bindE_eq_Inr py_index_def split: if_splits)
  obtain m where m: "trie_load (state_nodes (db (state b))) (root (state b)) = Inr m"
    using acct by (auto simp: load_acct_def state_trie_get_def bindE_eq_Inr)
  then show ?thesis using a acct i
    by (simp add: set_index_def state_trie_update_def case_prod_beta)
qed

lemma set_code_unfold:
  "set_code P b address v =
     set_index P (b\<lparr>state := (state b)\<lparr>db := db_commit (db_put (db (state b)) (sha3 P v) v)\<rparr>\<rparr>)
       address CODE_INDEX (sha3 P v)"
  by (simp add: set_code_def set_code_run_def Let_def split: sum.splits)

lemma get_index_db_put:
  "get_index (b\<lparr>state := (state b)\<lparr>db := db_commit (db_put (db (state b)) k v)\<rparr>\<rparr>) a i = get_index b a i"
  by (simp add: get_index_def load_acct_def state_trie_get_def db_commit_def db_put_def)

theorem delta_index_nonnegative_witness:
  "delta_balance ref_prims blank_block ''alice'' (- 3) = Inr (False, blank_block) \<and>
   (\<exists>b'. delta_balance ref_prims blank_block ''alice'' 5 = Inr (True, b') \<and>
         get_index b' ''alice'' BALANCE_INDEX = Inr (int_to_bytes 5))"
proof -
  have g: "get_index blank_block ''alice'' BALANCE_INDEX = Inr []"
    by (simp add: blank_block_get_index BALANCE_INDEX_def)
  have z: "decode_int [] = 0" by (simp add: decode_int_def)
  show ?thesis
    using delta_index_nonnegative [OF digest_ok_ref g, of "- 3"]
      delta_index_nonnegative [OF digest_ok_ref g, of 5]
    by (auto simp: z delta_balance_def)
qed

section \<open>Code is content-addressed\<close>

lemma set_index_durable:
  assumes "set_index P b address index v = Inr b'"
  shows "durable (db (state b')) = durable (db (state b))"
proof -
  from set_index_unfold [OF assms] obtain a acct t where
    t: "state_trie_update P (state b) a (acct[index := v]) = Inr t" and b': "b' = b\<lparr>state := t\<rparr>"
    by blast
  from t have "durable (db t) = durable (db (state b))"
    by (auto simp: state_trie_update_def bindE_eq_Inr case_prod_beta)
  then show ?thesis by (simp add: b')
qed

lemma set_code_run_raises:
  assumes "set_index P (b\<lparr>state := (state b)\<lparr>db := db_commit (db_put (db (state b)) (sha3 P v) v)\<rparr>\<rparr>)
             address CODE_INDEX (sha3 P v) = Inl e"
  shows "set_code_run P b address v =
           (b\<lparr>state := (state b)\<lparr>db := db_commit (db_put (db (state b)) (sha3 P v) v)\<rparr>\<rparr>, Some e)"
  using assms by (simp add: set_code_run_def Let_def)

lemma set_code_run_returns:
  assumes "set_index P (b\<lparr>state := (state b)\<lparr>db := db_commit (db_put (db (state b)) (sha3 P v) v)\<rparr>\<rparr>)
             address CODE_INDEX (sha3 P v) = Inr b'"
  shows "set_code_run P b address v = (b', None)"
  using assms by (simp add: set_code_run_def Let_def)

text \<open>
  Claim C8. \<^verbatim>\<open>set_code\<close> puts the code under its digest in the database and commits,
  and only then sets the account's code-hash field to that digest. After it,
  \<^verbatim>\<open>get_code\<close> returns exactly the bytes that were set, and two addresses given the same
  bytes hold the same code-hash field, the digest of the bytes.

  The order shows in what a call leaves behind. However a call \<open>set_code_run P b0 a0 v0\<close>
  ends, returning or raising, the bytes are in the database under their digest and the
  commit has written them through; and when it raises, which only the setting of the
  field can do, the root of the world state is the one before the call and every field
  of every account reads as before: the write and the commit are done and no account
  refers to the digest. A call that returns leaves the blob committed as well. A body
  that set the field first, or that committed after setting it, or before the write,
  would leave no blob, or none committed, when the setting of the field raises.
\<close>

theorem set_code_get_code:
  assumes "digest_ok P" and "set_code P b a1 v = Inr b1" and "set_code P b1 a2 v = Inr b2"
  shows "get_code P b1 a1 = Inr v \<and> get_index b1 a1 CODE_INDEX = Inr (sha3 P v) \<and>
         blobs (db (state b1)) (sha3 P v) = Some v \<and>
         get_code P b2 a2 = Inr v \<and> get_code P b2 a1 = Inr v \<and>
         get_index b2 a2 CODE_INDEX = Inr (sha3 P v) \<and>
         get_index b2 a1 CODE_INDEX = get_index b2 a2 CODE_INDEX \<and>
         set_code P b a1 v =
           set_index P (b\<lparr>state := (state b)\<lparr>db := db_commit (db_put (db (state b)) (sha3 P v) v)\<rparr>\<rparr>)
             a1 CODE_INDEX (sha3 P v) \<and>
         durable (db (state b1)) (sha3 P v) = Some v \<and>
         set_code_run P b a1 v = (b1, None) \<and>
         blobs (db (state (fst (set_code_run P b0 a0 v0)))) (sha3 P v0) = Some v0 \<and>
         durable (db (state (fst (set_code_run P b0 a0 v0)))) (sha3 P v0) = Some v0 \<and>
         snd (set_code_run P b0 a0 v0) = (case set_code P b0 a0 v0 of Inl e \<Rightarrow> Some e | Inr b' \<Rightarrow> None) \<and>
         (snd (set_code_run P b0 a0 v0) \<noteq> None \<longrightarrow>
            root (state (fst (set_code_run P b0 a0 v0))) = root (state b0) \<and>
            state_nodes (db (state (fst (set_code_run P b0 a0 v0)))) = state_nodes (db (state b0)) \<and>
            (\<forall>a i. get_index (fst (set_code_run P b0 a0 v0)) a i = get_index b0 a i))"
proof -
  have nb: "sha3 P v \<noteq> []" using assms(1) by (simp add: digest_ok_def BLANK_NODE_def)
  let ?put = "\<lambda>b. b\<lparr>state := (state b)\<lparr>db := db_commit (db_put (db (state b)) (sha3 P v) v)\<rparr>\<rparr>"
  have s1: "set_index P (?put b) a1 CODE_INDEX (sha3 P v) = Inr b1"
    using assms(2) by (simp add: set_code_unfold)
  have s2: "set_index P (?put b1) a2 CODE_INDEX (sha3 P v) = Inr b2"
    using assms(3) by (simp add: set_code_unfold)
  have i1: "get_index b1 a1 CODE_INDEX = Inr (sha3 P v)"
    by (rule set_index_read [OF assms(1) s1])
  have i2: "get_index b2 a2 CODE_INDEX = Inr (sha3 P v)"
    by (rule set_index_read [OF assms(1) s2])
  have bl1: "blobs (db (state b1)) (sha3 P v) = Some v"
    using set_index_frame(1) [OF assms(1) s1] by (simp add: db_commit_def db_put_def)
  have bl2: "blobs (db (state b2)) (sha3 P v) = Some v"
    using set_index_frame(1) [OF assms(1) s2] by (simp add: db_commit_def db_put_def)
  have du1: "durable (db (state b1)) (sha3 P v) = Some v"
    using set_index_durable [OF s1] by (simp add: db_commit_def db_put_def)
  have r1: "set_code_run P b a1 v = (b1, None)"
    by (rule set_code_run_returns [OF s1])
  from set_index_unfold [OF s1] obtain n1 where n1: "normalize_address a1 = Inr n1" by blast
  from set_index_unfold [OF s2] obtain n2 where n2: "normalize_address a2 = Inr n2" by blast
  have put_get: "get_index (?put b1) a1 i = get_index b1 a1 i" for i
    by (simp add: get_index_def load_acct_def state_trie_get_def db_commit_def db_put_def)
  have i3: "get_index b2 a1 CODE_INDEX = Inr (sha3 P v)"
  proof (cases "n1 = n2")
    case True
    then show ?thesis using set_index_same [OF assms(1) s2 n2] n1 by simp
  next
    case False
    then show ?thesis using set_index_other [OF assms(1) s2 n2 n1] put_get i1 by simp
  qed
  let ?b2 = "b0\<lparr>state := (state b0)\<lparr>db := db_commit (db_put (db (state b0)) (sha3 P v0) v0)\<rparr>\<rparr>"
  let ?run = "set_code_run P b0 a0 v0"
  have p: "blobs (db (state ?b2)) (sha3 P v0) = Some v0 \<and> durable (db (state ?b2)) (sha3 P v0) = Some v0"
    by (simp add: db_commit_def db_put_def)
  have out: "blobs (db (state (fst ?run))) (sha3 P v0) = Some v0 \<and>
             durable (db (state (fst ?run))) (sha3 P v0) = Some v0 \<and>
             snd ?run = (case set_code P b0 a0 v0 of Inl e \<Rightarrow> Some e | Inr b' \<Rightarrow> None) \<and>
             (snd ?run \<noteq> None \<longrightarrow>
                root (state (fst ?run)) = root (state b0) \<and>
                state_nodes (db (state (fst ?run))) = state_nodes (db (state b0)) \<and>
                (\<forall>a i. get_index (fst ?run) a i = get_index b0 a i))"
  proof (cases "set_index P ?b2 a0 CODE_INDEX (sha3 P v0)")
    case (Inl e)
    have run: "?run = (?b2, Some e)" by (rule set_code_run_raises [OF Inl])
    have sc: "set_code P b0 a0 v0 = Inl e" using Inl by (simp add: set_code_unfold)
    have fr: "root (state ?b2) = root (state b0) \<and> state_nodes (db (state ?b2)) = state_nodes (db (state b0))"
      by (simp add: db_commit_def db_put_def)
    have gi: "\<forall>a i. get_index ?b2 a i = get_index b0 a i"
      by (simp only: get_index_db_put) simp
    show ?thesis unfolding run sc using p fr gi by simp
  next
    case (Inr b3)
    have run: "?run = (b3, None)" by (rule set_code_run_returns [OF Inr])
    have sc: "set_code P b0 a0 v0 = Inr b3" using Inr by (simp add: set_code_unfold)
    have "blobs (db (state b3)) = blobs (db (state ?b2))"
      by (rule set_index_frame(1) [OF assms(1) Inr])
    moreover have "durable (db (state b3)) = durable (db (state ?b2))"
      by (rule set_index_durable [OF Inr])
    ultimately show ?thesis unfolding run sc using p by simp
  qed
  have main: "get_code P b1 a1 = Inr v \<and> get_index b1 a1 CODE_INDEX = Inr (sha3 P v) \<and>
         blobs (db (state b1)) (sha3 P v) = Some v \<and>
         get_code P b2 a2 = Inr v \<and> get_code P b2 a1 = Inr v \<and>
         get_index b2 a2 CODE_INDEX = Inr (sha3 P v) \<and>
         get_index b2 a1 CODE_INDEX = get_index b2 a2 CODE_INDEX \<and>
         set_code P b a1 v =
           set_index P (b\<lparr>state := (state b)\<lparr>db := db_commit (db_put (db (state b)) (sha3 P v) v)\<rparr>\<rparr>)
             a1 CODE_INDEX (sha3 P v)"
    using i1 i2 i3 bl1 bl2 nb
    by (simp add: get_code_def db_get_def set_code_unfold)
  show ?thesis using main du1 r1 out by blast
qed

theorem set_code_get_code_witness:
  "(\<exists>b1 b2. set_code ref_prims blank_block ''alice'' ''code'' = Inr b1 \<and>
     set_code ref_prims b1 ''bob'' ''code'' = Inr b2 \<and>
     get_code ref_prims b1 ''alice'' = Inr ''code'' \<and>
     get_code ref_prims b2 ''bob'' = Inr ''code'' \<and>
     get_index b2 ''alice'' CODE_INDEX = get_index b2 ''bob'' CODE_INDEX \<and>
     durable (db (state b1)) (sha3 ref_prims ''code'') = Some ''code'') \<and>
   set_code ref_prims blank_block ''zzzzzzzzzzzzzzzzzzzzzzzzzzzzzzzzzzzzzzzz'' ''code'' = Inl TypeError \<and>
   snd (set_code_run ref_prims blank_block ''zzzzzzzzzzzzzzzzzzzzzzzzzzzzzzzzzzzzzzzz'' ''code'') =
     Some TypeError \<and>
   blobs (db (state (fst (set_code_run ref_prims blank_block
     ''zzzzzzzzzzzzzzzzzzzzzzzzzzzzzzzzzzzzzzzz'' ''code'')))) (sha3 ref_prims ''code'') = Some ''code'' \<and>
   durable (db (state (fst (set_code_run ref_prims blank_block
     ''zzzzzzzzzzzzzzzzzzzzzzzzzzzzzzzzzzzzzzzz'' ''code'')))) (sha3 ref_prims ''code'') = Some ''code'' \<and>
   root (state (fst (set_code_run ref_prims blank_block
     ''zzzzzzzzzzzzzzzzzzzzzzzzzzzzzzzzzzzzzzzz'' ''code''))) = root (state blank_block) \<and>
   get_index (fst (set_code_run ref_prims blank_block
     ''zzzzzzzzzzzzzzzzzzzzzzzzzzzzzzzzzzzzzzzz'' ''code'')) ''alice'' CODE_INDEX = Inr []"
proof -
  let ?h = "sha3 ref_prims ''code''"
  let ?z = "''zzzzzzzzzzzzzzzzzzzzzzzzzzzzzzzzzzzzzzzz''"
  let ?put = "\<lambda>b :: pyval block. b\<lparr>state := (state b)\<lparr>db := db_commit (db_put (db (state b)) ?h ''code'')\<rparr>\<rparr>"
  have sc: "set_code ref_prims b a ''code'' = set_index ref_prims (?put b) a CODE_INDEX ?h" for b a
    by (simp add: set_code_unfold)
  have "get_index (?put blank_block) ''alice'' CODE_INDEX = Inr []"
    by (simp only: get_index_db_put) (simp add: blank_block_get_index CODE_INDEX_def)
  from set_index_succeeds [OF this] obtain b1 where
    b1: "set_index ref_prims (?put blank_block) ''alice'' CODE_INDEX ?h = Inr b1"
    by blast
  have na: "normalize_address ''alice'' = Inr ''alice''" and nb: "normalize_address ''bob'' = Inr ''bob''"
    by (simp_all add: normalize_address_def)
  have "get_index b1 ''bob'' CODE_INDEX = get_index (?put blank_block) ''bob'' CODE_INDEX"
    by (rule set_index_other [OF digest_ok_ref b1 na nb]) simp
  also have "\<dots> = Inr []"
    by (simp only: get_index_db_put) (simp add: blank_block_get_index CODE_INDEX_def)
  finally have "get_index (?put b1) ''bob'' CODE_INDEX = Inr []"
    by (simp only: get_index_db_put)
  from set_index_succeeds [OF this] obtain b2 where
    b2: "set_index ref_prims (?put b1) ''bob'' CODE_INDEX ?h = Inr b2"
    by blast
  have c1: "set_code ref_prims blank_block ''alice'' ''code'' = Inr b1" using b1 sc by simp
  have c2: "set_code ref_prims b1 ''bob'' ''code'' = Inr b2" using b2 sc by simp
  have nz: "normalize_address ?z = Inl TypeError"
    by (simp add: normalize_address_def hex_val_def)
  have cz: "set_code ref_prims blank_block ?z ''code'' = Inl TypeError"
    by (simp only: sc) (simp add: set_index_def nz)
  have ga: "get_index blank_block ''alice'' CODE_INDEX = Inr []"
    by (simp add: blank_block_get_index CODE_INDEX_def)
  note t = set_code_get_code [OF digest_ok_ref c1 c2, where ?b0.0 = blank_block and ?a0.0 = ?z and ?v0.0 = "''code''"]
  have r: "get_code ref_prims b1 ''alice'' = Inr ''code'' \<and>
           get_code ref_prims b2 ''bob'' = Inr ''code'' \<and>
           get_index b2 ''alice'' CODE_INDEX = get_index b2 ''bob'' CODE_INDEX \<and>
           durable (db (state b1)) ?h = Some ''code''"
    using t by simp
  have sn: "snd (set_code_run ref_prims blank_block ?z ''code'') = Some TypeError"
    using t by (simp only: cz) simp
  have z: "blobs (db (state (fst (set_code_run ref_prims blank_block ?z ''code'')))) ?h = Some ''code'' \<and>
           durable (db (state (fst (set_code_run ref_prims blank_block ?z ''code'')))) ?h = Some ''code'' \<and>
           root (state (fst (set_code_run ref_prims blank_block ?z ''code''))) = root (state blank_block) \<and>
           get_index (fst (set_code_run ref_prims blank_block ?z ''code'')) ''alice'' CODE_INDEX = Inr []"
    using t sn ga by simp
  have ex: "\<exists>b1 b2. set_code ref_prims blank_block ''alice'' ''code'' = Inr b1 \<and>
     set_code ref_prims b1 ''bob'' ''code'' = Inr b2 \<and>
     get_code ref_prims b1 ''alice'' = Inr ''code'' \<and>
     get_code ref_prims b2 ''bob'' = Inr ''code'' \<and>
     get_index b2 ''alice'' CODE_INDEX = get_index b2 ''bob'' CODE_INDEX \<and>
     durable (db (state b1)) ?h = Some ''code''"
    by (rule exI [of _ b1], rule exI [of _ b2]) (use c1 c2 r in blast)
  show ?thesis using ex cz sn z by blast
qed

lemma storage_trie_update_load:
  assumes "digest_ok P" and "storage_trie_update P t k v = Inr t'"
  shows "\<exists>m. trie_load (storage_nodes (db t)) (root t) = Inr m \<and>
             trie_load (storage_nodes (db t')) (root t') = Inr (AList.update k v m) \<and>
             state_nodes (db t') = state_nodes (db t) \<and> blobs (db t') = blobs (db t)"
proof -
  from assms(2) obtain m where m: "trie_load (storage_nodes (db t)) (root t) = Inr m"
    and t': "t' = t\<lparr>root := fst (trie_store P slot_node (storage_nodes (db t)) (AList.update k v m)),
                  db := (db t)\<lparr>storage_nodes := snd (trie_store P slot_node (storage_nodes (db t)) (AList.update k v m))\<rparr>\<rparr>"
    by (auto simp: storage_trie_update_def bindE_eq_Inr case_prod_beta)
  show ?thesis using m trie_load_store [OF assms(1)] by (simp add: t')
qed

lemma storage_trie_delete_load:
  assumes "digest_ok P" and "storage_trie_delete P t k = Inr t'"
  shows "\<exists>m. trie_load (storage_nodes (db t)) (root t) = Inr m \<and>
             trie_load (storage_nodes (db t')) (root t') = Inr (AList.delete k m) \<and>
             state_nodes (db t') = state_nodes (db t) \<and> blobs (db t') = blobs (db t)"
proof -
  from assms(2) obtain m where m: "trie_load (storage_nodes (db t)) (root t) = Inr m"
    and t': "t' = t\<lparr>root := fst (trie_store P slot_node (storage_nodes (db t)) (AList.delete k m)),
                  db := (db t)\<lparr>storage_nodes := snd (trie_store P slot_node (storage_nodes (db t)) (AList.delete k m))\<rparr>\<rparr>"
    by (auto simp: storage_trie_delete_def bindE_eq_Inr case_prod_beta)
  show ?thesis using m trie_load_store [OF assms(1)] by (simp add: t')
qed

lemma storage_write_load:
  assumes "digest_ok P" and "storage_write P t k val = Inr t'"
  shows "\<exists>m. trie_load (storage_nodes (db t)) (root t) = Inr m \<and>
             trie_load (storage_nodes (db t')) (root t') = Inr (storage_written k val m) \<and>
             state_nodes (db t') = state_nodes (db t) \<and> blobs (db t') = blobs (db t)"
  using assms storage_trie_update_load [of P t k "int_to_bytes (nat val)" t']
    storage_trie_delete_load [of P t k t']
  by (auto simp: storage_write_def storage_written_def split: if_splits)

lemma set_storage_data_unfold:
  assumes "set_storage_data P b address index val = Inr b'"
  shows "\<exists>t k t'. get_storage b address = Inr t \<and> coerce_to_bytes index = Inr k \<and> 0 \<le> val \<and>
           storage_write P t k val = Inr t' \<and>
           set_index P (b\<lparr>state := (state b)\<lparr>db := db t'\<rparr>\<rparr>) address STORAGE_INDEX (root t') = Inr b'"
proof (cases "val = 0")
  case True
  then show ?thesis using assms
    by (auto simp: set_storage_data_def storage_write_def bindE_eq_Inr)
next
  case False
  then show ?thesis using assms
    by (auto simp: set_storage_data_def storage_write_def bindE_eq_Inr encode_int_def split: if_splits)
qed

section \<open>Storage writes\<close>

text \<open>
  Claim C6. Every successful \<^verbatim>\<open>set_storage_data\<close> writes the root of the sub-trie it
  changed into the storage-root field of the account, so that the sub-trie opened again
  from the account holds what was written. Writing 0 deletes the key from the sub-trie
  (no entry is left under it) and the slot then reads 0; writing another value stores
  its encoding and the slot then reads that value.
\<close>

theorem set_storage_data_relinks:
  assumes "digest_ok P" and "set_storage_data P b address index val = Inr b'"
  shows "\<exists>t k t' m m'. get_storage b address = Inr t \<and> coerce_to_bytes index = Inr k \<and>
           storage_trie_to_dict t = Inr m \<and>
           (if val \<noteq> 0 then storage_trie_update P t k (int_to_bytes (nat val))
            else storage_trie_delete P t k) = Inr t' \<and>
           get_index b' address STORAGE_INDEX = Inr (root t') \<and>
           get_storage b' address = Inr \<lparr>root = root t', db = db (state b')\<rparr> \<and>
           storage_trie_to_dict \<lparr>root = root t', db = db (state b')\<rparr> = Inr m' \<and>
           m' = (if val \<noteq> 0 then AList.update k (int_to_bytes (nat val)) m else AList.delete k m) \<and>
           (val = 0 \<longrightarrow> k \<notin> fst ` set m') \<and>
           get_storage_data b' address index = Inr val"
proof -
  from set_storage_data_unfold [OF assms(2)] obtain t k t' where
    t: "get_storage b address = Inr t" and k: "coerce_to_bytes index = Inr k" and nn: "0 \<le> val"
    and w: "storage_write P t k val = Inr t'"
    and s: "set_index P (b\<lparr>state := (state b)\<lparr>db := db t'\<rparr>\<rparr>) address STORAGE_INDEX (root t') = Inr b'"
    by blast
  from storage_write_load [OF assms(1) w] obtain m where
    m: "trie_load (storage_nodes (db t)) (root t) = Inr m"
    and m': "trie_load (storage_nodes (db t')) (root t') = Inr (storage_written k val m)"
    by blast
  have link: "get_index b' address STORAGE_INDEX = Inr (root t')"
    by (rule set_index_read [OF assms(1) s])
  have sn: "storage_nodes (db (state b')) = storage_nodes (db t')"
    using set_index_frame(2) [OF assms(1) s] by simp
  have reopen: "get_storage b' address = Inr \<lparr>root = root t', db = db (state b')\<rparr>"
    using link by (simp add: get_storage_def)
  have dict: "storage_trie_to_dict \<lparr>root = root t', db = db (state b')\<rparr> = Inr (storage_written k val m)"
    using m' sn by (simp add: storage_trie_to_dict_def)
  have gone: "k \<notin> fst ` set (storage_written k val m)" if "val = 0"
    using that by (simp add: storage_written_def delete_notin_dom)
  have "map_of (storage_written k val m) k = (if val \<noteq> 0 then Some (int_to_bytes (nat val)) else None)"
    by (simp add: storage_written_def update_conv' delete_conv')
  then have data: "get_storage_data b' address index = Inr val"
    using reopen k m' sn nn
    by (simp add: get_storage_data_def storage_trie_get_def decode_int_to_bytes) (simp add: decode_int_def)
  show ?thesis
    using t k m w link reopen dict gone data
    by (auto simp: storage_write_def storage_written_def storage_trie_to_dict_def)
qed

lemma storage_write_frame:
  assumes "storage_write P t k val = Inr t'"
  shows "state_nodes (db t') = state_nodes (db t)"
  using assms
  by (auto simp: storage_write_def storage_trie_update_def storage_trie_delete_def bindE_eq_Inr
      case_prod_beta split: if_splits)

lemma get_index_state_nodes:
  assumes "state_nodes (db (state b')) = state_nodes (db (state b))" and "root (state b') = root (state b)"
  shows "get_index b' a i = get_index b a i"
  using assms by (simp add: get_index_def load_acct_def state_trie_get_def)

lemma set_storage_data_succeeds:
  assumes "get_storage b address = Inr t" and "storage_trie_to_dict t = Inr m"
    and "coerce_to_bytes index = Inr k" and "0 \<le> val"
  shows "\<exists>b'. set_storage_data P b address index val = Inr b'"
proof -
  from assms(1) obtain r where r: "get_index b address STORAGE_INDEX = Inr r"
    and t: "t = \<lparr>root = r, db = db (state b)\<rparr>"
    by (auto simp: get_storage_def bindE_eq_Inr)
  have "\<exists>t'. storage_write P t k val = Inr t'"
    using assms(2)
    by (simp add: storage_write_def storage_trie_to_dict_def storage_trie_update_def
        storage_trie_delete_def case_prod_beta)
  then obtain t' where w: "storage_write P t k val = Inr t'" by blast
  have "get_index (b\<lparr>state := (state b)\<lparr>db := db t'\<rparr>\<rparr>) address STORAGE_INDEX = get_index b address STORAGE_INDEX"
    using storage_write_frame [OF w] by (intro get_index_state_nodes) (simp_all add: t)
  from set_index_succeeds [of _ address STORAGE_INDEX r P "root t'"] this r obtain b' where
    "set_index P (b\<lparr>state := (state b)\<lparr>db := db t'\<rparr>\<rparr>) address STORAGE_INDEX (root t') = Inr b'"
    by auto
  then show ?thesis using assms(1,3,4) w
    by (auto simp: set_storage_data_def storage_write_def encode_int_def)
qed

theorem set_storage_data_relinks_witness:
  "\<exists>b1 b2. set_storage_data ref_prims blank_block ''alice'' (PInt 1) 7 = Inr b1 \<and>
     set_storage_data ref_prims b1 ''alice'' (PInt 1) 0 = Inr b2 \<and>
     get_storage_data b1 ''alice'' (PInt 1) = Inr 7 \<and>
     get_storage_data b2 ''alice'' (PInt 1) = Inr 0"
proof -
  have k: "coerce_to_bytes (PInt 1) = Inr (int_to_bytes 1)"
    by (simp add: coerce_to_bytes_def encode_int_def)
  have "get_storage blank_block ''alice'' = Inr \<lparr>root = [], db = db (state blank_block)\<rparr>"
    by (simp add: get_storage_def blank_block_get_index STORAGE_INDEX_def)
  moreover have "storage_trie_to_dict \<lparr>root = [], db = db (state blank_block)\<rparr> = Inr []"
    by (simp add: storage_trie_to_dict_def trie_load_def BLANK_NODE_def)
  ultimately obtain b1 where
    b1: "set_storage_data ref_prims blank_block ''alice'' (PInt 1) 7 = Inr b1"
    using set_storage_data_succeeds [of blank_block "''alice''" _ "[]" "PInt 1" _ 7 ref_prims] k
    by auto
  from set_storage_data_relinks [OF digest_ok_ref b1] obtain t1 m1 where
    g1: "get_storage b1 ''alice'' = Inr t1" and d1: "storage_trie_to_dict t1 = Inr m1"
    and v1: "get_storage_data b1 ''alice'' (PInt 1) = Inr 7"
    by blast
  from set_storage_data_succeeds [OF g1 d1 k, of 0 ref_prims] obtain b2 where
    b2: "set_storage_data ref_prims b1 ''alice'' (PInt 1) 0 = Inr b2"
    by auto
  from set_storage_data_relinks [OF digest_ok_ref b2]
  have v2: "get_storage_data b2 ''alice'' (PInt 1) = Inr 0"
    by blast
  show ?thesis
    by (rule exI [of _ b1], rule exI [of _ b2]) (use b1 b2 v1 v2 in blast)
qed

lemma hex_val_zero: "hex_val (CHR ''0'') = Some 0"
  by (simp add: hex_val_def)

lemma hex_decode_zeros: "hex_decode (replicate (2 * n) (CHR ''0'')) = Inr (replicate n (char_of (0::nat)))"
  by (induction n) (simp_all add: hex_val_zero)

lemma serialize_struct_genesis:
  "serialize_struct P (genesis_block dbs) =
     Inr (PList [PList [PStr (int_to_bytes 0), PStr [], PStr (sha3 P (rlp_encode P (PList []))),
                        PStr (replicate 20 (char_of (0::nat))), PStr BLANK_NODE,
                        PStr (sha3 P (rlp_encode P (PList []))), PStr (int_to_bytes (2 ^ 23)),
                        PStr (int_to_bytes 0), PStr [], PStr (int_to_bytes 0)],
                 PList [], PList []])"
proof -
  have "hex_decode (replicate 40 (CHR ''0'')) = Inr (replicate 20 (char_of (0::nat)))"
    using hex_decode_zeros [of 20] by simp
  then show ?thesis
    by (simp add: serialize_struct_def genesis_block_def Block_fields_def genesis_header_def
        encode_int_def rlp_enc_def decode_hex_val_def encode_int_val_def)
qed

lemma hash_genesis: "\<exists>h. hash P (genesis_block dbs) = Inr h"
  by (simp add: hash_def serialize_def serialize_struct_genesis rlp_enc_def BLANK_NODE_def)

lemma Block_init_genesis:
  "Block_init P dbs genesis_header [] (PList []) False = Inr (genesis_block dbs)"
proof -
  obtain h where "hash P (genesis_block dbs) = Inr h" using hash_genesis by blast
  moreover have "length genesis_header = 9" "genesis_header ! 3 = PStr BLANK_NODE"
    by (simp_all add: genesis_header_def)
  ultimately show ?thesis
    by (simp add: Block_init_def genesis_block_def)
qed

lemma Block_init_genesis_validated:
  fixes P :: "'tx prims"
  assumes "digest_ok P"
  shows "Block_init P dbs genesis_header [] (PList []) True =
           Inl (Exception ''Transaction list root hash does not match!'')"
proof -
  obtain h where "hash P (genesis_block dbs) = Inr h" using hash_genesis by blast
  moreover have "length genesis_header = 9" "genesis_header ! 3 = PStr BLANK_NODE"
    by (simp_all add: genesis_header_def)
  moreover have "transactions_root (genesis_block dbs :: 'tx block) = PStr []"
    by (simp add: genesis_block_def Block_fields_def genesis_header_def)
  moreover have "sha3 P (rlp_encode P (PList [])) \<noteq> []"
    using assms by (simp add: digest_ok_def BLANK_NODE_def)
  ultimately show ?thesis
    by (simp add: Block_init_def genesis_block_def [symmetric] verify_def rlp_enc_def Let_def)
qed

lemma wf_accounts_genesis: "wf_accounts (genesis_block dbs)"
  by (simp add: wf_accounts_def genesis_block_def Block_fields_def load_acct_def state_trie_get_def
      trie_load_def blank_acct_def)

lemma set_index_get:
  assumes "digest_ok P" and "set_index P b address index v = Inr b'"
    and "normalize_address address = Inr a" and "normalize_address address' = Inr a'"
  shows "get_index b' address' j = (if a' = a \<and> j = index then Inr v else get_index b address' j)"
proof (cases "a' = a")
  case False
  then show ?thesis using set_index_other [OF assms(1,2,3,4)] by simp
next
  case True
  from set_index_unfold [OF assms(2)] assms(3) obtain acct t where
    acct: "load_acct b a = Inr acct" and i: "index < length acct"
    and t: "state_trie_update P (state b) a (acct[index := v]) = Inr t" and b': "b' = b\<lparr>state := t\<rparr>"
    by auto
  have "acct[index := v] \<noteq> []" using i by auto
  from write_acct_read(1) [OF assms(1) t this] show ?thesis
    using True assms(4) acct i by (auto simp: get_index_def b' py_index_def)
qed

lemma set_index_wf:
  assumes "digest_ok P" and "set_index P b address index v = Inr b'" and "wf_accounts b"
  shows "wf_accounts b'"
proof -
  from set_index_unfold [OF assms(2)] obtain a acct t where
    acct: "load_acct b a = Inr acct" and i: "index < length acct"
    and t: "state_trie_update P (state b) a (acct[index := v]) = Inr t" and b': "b' = b\<lparr>state := t\<rparr>"
    by auto
  have ne: "acct[index := v] \<noteq> []" using i by auto
  from assms(3) obtain acct0 where "load_acct b a = Inr acct0" "length acct0 = 4"
    unfolding wf_accounts_def by blast
  then have len: "length acct = 4" using acct by simp
  show ?thesis unfolding wf_accounts_def
  proof
    fix a'
    show "\<exists>acct'. load_acct b' a' = Inr acct' \<and> length acct' = 4"
    proof (cases "a' = a")
      case True
      then show ?thesis using write_acct_read(1) [OF assms(1) t ne] len by (simp add: b')
    next
      case False
      then show ?thesis using write_acct_read(2) [OF assms(1) t ne] assms(3)
        by (simp add: b' wf_accounts_def)
    qed
  qed
qed

lemma wf_get_index:
  assumes "wf_accounts b" and "normalize_address address = Inr a" and "j < 4"
  shows "\<exists>f. get_index b address j = Inr f"
proof -
  from assms(1) obtain acct where "load_acct b a = Inr acct" "length acct = 4"
    by (auto simp: wf_accounts_def)
  then show ?thesis using assms(2,3) by (simp add: get_index_def py_index_def)
qed

lemma set_balances_ok:
  assumes "digest_ok P" and "wf_accounts b"
    and "\<forall>x\<in>set alloc. 0 \<le> snd x \<and> (\<exists>n. normalize_address (fst x) = Inr n)"
    and "distinct (map (\<lambda>x. normalize_address (fst x)) alloc)"
  shows "\<exists>b'. set_balances P b alloc = Inr b' \<and>
           (\<forall>x\<in>set alloc. get_balance b' (fst x) = Inr (snd x)) \<and>
           (\<forall>address n j. normalize_address address = Inr n \<longrightarrow>
              (j \<noteq> BALANCE_INDEX \<or> Inr n \<notin> (\<lambda>x. normalize_address (fst x)) ` set alloc) \<longrightarrow>
              get_index b' address j = get_index b address j)"
  using assms(2,3,4)
proof (induction alloc arbitrary: b)
  case Nil
  then show ?case by simp
next
  case (Cons x rest)
  obtain addr v where x: "x = (addr, v)" by (cases x)
  from Cons.prems(2) x obtain n where v: "0 \<le> v" and n: "normalize_address addr = Inr n" by auto
  from wf_get_index [OF Cons.prems(1) n, of BALANCE_INDEX] obtain f where
    "get_index b addr BALANCE_INDEX = Inr f" by (auto simp: BALANCE_INDEX_def)
  from set_index_succeeds [OF this, of P "int_to_bytes (nat v)"] obtain b1 where
    s: "set_index P b addr BALANCE_INDEX (int_to_bytes (nat v)) = Inr b1" by blast
  then have sb: "set_balance P b addr v = Inr b1"
    using v by (simp add: set_balance_def encode_int_def)
  have wf1: "wf_accounts b1" by (rule set_index_wf [OF assms(1) s Cons.prems(1)])
  have rest: "\<forall>x\<in>set rest. 0 \<le> snd x \<and> (\<exists>n. normalize_address (fst x) = Inr n)"
    using Cons.prems(2) by simp
  have dist: "distinct (map (\<lambda>x. normalize_address (fst x)) rest)"
    and fresh: "Inr n \<notin> (\<lambda>x. normalize_address (fst x)) ` set rest"
    using Cons.prems(3) x n by auto
  from Cons.IH [OF wf1 rest dist] obtain b' where
    run: "set_balances P b1 rest = Inr b'"
    and bal: "\<forall>x\<in>set rest. get_balance b' (fst x) = Inr (snd x)"
    and keep0: "\<forall>address n j. normalize_address address = Inr n \<longrightarrow>
        (j \<noteq> BALANCE_INDEX \<or> Inr n \<notin> (\<lambda>x. normalize_address (fst x)) ` set rest) \<longrightarrow>
        get_index b' address j = get_index b1 address j"
    by blast
  have keep: "get_index b' address j = get_index b1 address j"
    if "normalize_address address = Inr n"
      and "j \<noteq> BALANCE_INDEX \<or> Inr n \<notin> (\<lambda>x. normalize_address (fst x)) ` set rest"
    for address n j
    using keep0 that by blast
  have "get_index b' addr BALANCE_INDEX = get_index b1 addr BALANCE_INDEX"
    using keep [OF n, of BALANCE_INDEX] fresh by simp
  also have "\<dots> = Inr (int_to_bytes (nat v))"
    by (rule set_index_read [OF assms(1) s])
  finally have here: "get_balance b' addr = Inr v"
    using v by (simp add: get_balance_def decode_int_to_bytes)
  have frame: "get_index b' address j = get_index b address j"
    if a: "normalize_address address = Inr m"
      and c: "j \<noteq> BALANCE_INDEX \<or> Inr m \<notin> (\<lambda>x. normalize_address (fst x)) ` set (x # rest)"
    for address m j
  proof -
    have "get_index b' address j = get_index b1 address j"
      using keep [OF a, of j] c by auto
    also have "\<dots> = get_index b address j"
      using set_index_get [OF assms(1) s n a, of j] c x n by auto
    finally show ?thesis .
  qed
  show ?case
    using sb run bal here frame by (simp add: x)
qed

section \<open>Genesis\<close>

text \<open>
  Claim C9, as amended. \<^verbatim>\<open>genesis\<close> builds the header of sentinel values, constructs the block
  with validation disabled (which succeeds) and sets the balances. For an allocation
  whose addresses normalise to pairwise distinct accounts and whose balances are not
  negative, it returns a block in which every allocated address has its allocated
  balance and nonce 0. Constructing a block from the same header with validation raises
  "Transaction list root hash does not match!".
\<close>

theorem genesis_allocation:
  fixes P :: "'tx prims"
  assumes "digest_ok P"
    and "\<forall>x\<in>set alloc. 0 \<le> snd x \<and> (\<exists>n. normalize_address (fst x) = Inr n)"
    and "distinct (map (\<lambda>x. normalize_address (fst x)) alloc)"
  shows "\<exists>b. genesis P dbs alloc = Inr b \<and>
           (\<forall>x\<in>set alloc. get_balance b (fst x) = Inr (snd x) \<and> get_nonce b (fst x) = Inr 0) \<and>
           Block_init P dbs genesis_header [] (PList []) False =
             Inr (Block_fields dbs genesis_header BLANK_NODE [] (PList [])) \<and>
           set_balances P (Block_fields dbs genesis_header BLANK_NODE [] (PList [])) alloc = Inr b \<and>
           Block_init P dbs genesis_header [] (PList []) True =
             Inl (Exception ''Transaction list root hash does not match!'')"
proof -
  from set_balances_ok [OF assms(1) wf_accounts_genesis assms(2,3), of dbs] obtain b where
    run: "set_balances P (genesis_block dbs) alloc = Inr b"
    and bal: "\<forall>x\<in>set alloc. get_balance b (fst x) = Inr (snd x)"
    and keep0: "\<forall>address n j. normalize_address address = Inr n \<longrightarrow>
        (j \<noteq> BALANCE_INDEX \<or> Inr n \<notin> (\<lambda>x. normalize_address (fst x)) ` set alloc) \<longrightarrow>
        get_index b address j = get_index (genesis_block dbs :: 'tx block) address j"
    by blast
  have keep: "get_index b address j = get_index (genesis_block dbs :: 'tx block) address j"
    if "normalize_address address = Inr n"
      and "j \<noteq> BALANCE_INDEX \<or> Inr n \<notin> (\<lambda>x. normalize_address (fst x)) ` set alloc"
    for address n j
    using keep0 that by blast
  have nonce: "get_nonce b (fst x) = Inr 0" if "x \<in> set alloc" for x
  proof -
    from assms(2) that obtain n where n: "normalize_address (fst x) = Inr n" by blast
    have "get_index b (fst x) NONCE_INDEX = get_index (genesis_block dbs :: 'tx block) (fst x) NONCE_INDEX"
      using keep [OF n, of NONCE_INDEX] by (simp add: NONCE_INDEX_def BALANCE_INDEX_def)
    also have "\<dots> = Inr []"
      using n by (simp add: get_index_def genesis_block_def Block_fields_def load_acct_def
          state_trie_get_def trie_load_def blank_acct_def py_index_def NONCE_INDEX_def)
    finally show ?thesis by (simp add: get_nonce_def decode_int_def)
  qed
  show ?thesis
    using run bal nonce Block_init_genesis [of P dbs] Block_init_genesis_validated [OF assms(1), of dbs]
    by (simp add: genesis_def genesis_block_def)
qed

theorem genesis_allocation_witness:
  "\<exists>b. genesis ref_prims empty_store [(''alice'', 100), (''bob'', 50)] = Inr b \<and>
     get_balance b ''alice'' = Inr 100 \<and> get_balance b ''bob'' = Inr 50 \<and>
     get_nonce b ''alice'' = Inr 0"
proof -
  have n: "normalize_address ''alice'' = Inr ''alice''" "normalize_address ''bob'' = Inr ''bob''"
    by (simp_all add: normalize_address_def)
  have "\<forall>x\<in>set [(''alice'', 100::int), (''bob'', 50)]. 0 \<le> snd x \<and> (\<exists>n. normalize_address (fst x) = Inr n)"
    using n by simp
  moreover have "distinct (map (\<lambda>x. normalize_address (fst x)) [(''alice'', 100::int), (''bob'', 50)])"
    using n by simp
  ultimately show ?thesis
    using genesis_allocation [OF digest_ok_ref, of "[(''alice'', 100), (''bob'', 50)]" empty_store]
    by auto
qed

text \<open>
  Claim C9 as stated fails for an allocation that names one account twice, by its hex
  text and by its binary form: both keys normalise to the same account, the balance set
  last is the one kept, and \<^verbatim>\<open>get_balance\<close> of the key set first does not return its
  allocated balance, in either iteration order.
\<close>

theorem genesis_allocation_counterexample:
  "normalize_address (replicate 40 (CHR ''0'')) = Inr (replicate 20 (char_of (0::nat))) \<and>
   normalize_address (replicate 20 (char_of (0::nat))) = Inr (replicate 20 (char_of (0::nat))) \<and>
   genesis_balance ref_prims empty_store
     [(replicate 40 (CHR ''0''), 100), (replicate 20 (char_of (0::nat)), 50)]
     (replicate 40 (CHR ''0'')) = Inr 50 \<and>
   genesis_balance ref_prims empty_store
     [(replicate 20 (char_of (0::nat)), 50), (replicate 40 (CHR ''0''), 100)]
     (replicate 20 (char_of (0::nat))) = Inr 100"
proof -
  have h: "hex_decode (replicate 40 (CHR ''0'')) = Inr (replicate 20 (char_of (0::nat)))"
    using hex_decode_zeros [of 20] by simp
  have n: "normalize_address (replicate 40 (CHR ''0'')) = Inr (replicate 20 (char_of (0::nat)))"
    "normalize_address (replicate 20 (char_of (0::nat))) = Inr (replicate 20 (char_of (0::nat)))"
    by (simp_all add: normalize_address_def h)
  have g: "genesis ref_prims empty_store alloc =
      set_balances ref_prims (Block_fields empty_store genesis_header BLANK_NODE [] (PList [])) alloc" for alloc
    using Block_init_genesis [of ref_prims empty_store] by (simp add: genesis_def genesis_block_def)
  have l: "length (replicate 40 (CHR ''0'')) = 40" "length (replicate 20 (char_of (0::nat))) \<noteq> 40"
    by simp_all
  show ?thesis
    unfolding genesis_balance_def g
    by (simp add: n set_balance_def set_index_def get_balance_def get_index_def load_acct_def
        state_trie_get_def state_trie_update_def trie_load_def trie_store_def encode_int_def
        py_index_def blank_acct_def BLANK_NODE_def BALANCE_INDEX_def Block_fields_def
        ref_prims_def Let_def decode_int_to_bytes)
qed

lemma int_free_sequenceE:
  assumes "sequenceE rs = Inr ys" and "\<forall>r\<in>set rs. \<forall>y. r = Inr y \<longrightarrow> int_free y"
  shows "list_all int_free ys"
  using assms
  by (induction rs arbitrary: ys) (auto simp: bindE_eq_Inr)

lemma recursive_int_to_big_endian_int_free:
  "recursive_int_to_big_endian v = Inr w \<Longrightarrow> int_free w"
proof (induction v arbitrary: w)
  case (PStr s)
  then show ?case by auto
next
  case (PInt n)
  then show ?case by (auto simp: bindE_eq_Inr)
next
  case (PList xs)
  from PList.prems obtain ys where ys: "sequenceE (map recursive_int_to_big_endian xs) = Inr ys"
    and w: "w = PList ys"
    by (auto simp: bindE_eq_Inr)
  have "list_all int_free ys"
    by (rule int_free_sequenceE [OF ys]) (use PList.IH in auto)
  then show ?case by (simp add: w)
qed

lemma hash_uncles_int_free:
  assumes "hash P b = Inr h"
  shows "int_free (uncles b)"
  using assms
  by (auto simp: hash_def serialize_def serialize_struct_def bindE_eq_Inr rlp_enc_def split: if_splits)

section \<open>Validation at construction\<close>

text \<open>
  Claim C2, as amended. For an input on which the steps before the verifications go through (the
  header has its nine entries and a byte-string state root, the Transaction objects are
  built, the hash of the block computes, the raw transaction list has its canonical
  form), construction with validation disabled succeeds, and construction with
  validation fails if and only if the digest of the encoded transaction list differs
  from the header's transactions root, or the digest of the encoded uncle list differs
  from the header's uncles root, or the state root is not blank and the database holds
  nothing under it; when it does not fail it yields the same block as without validation.
\<close>

theorem Block_init_validation:
  assumes "9 \<le> length header" and "header ! 3 = PStr r"
    and "sequenceE (map (Transaction_new P) transaction_list) = Inr txs"
    and "hash P (Block_fields dbs header r txs uncs) = Inr h"
    and "recursive_int_to_big_endian (PList transaction_list) = Inr tle"
  shows "Block_init P dbs header transaction_list uncs False = Inr (Block_fields dbs header r txs uncs) \<and>
         (isl (Block_init P dbs header transaction_list uncs True) \<longleftrightarrow>
            PStr (sha3 P (rlp_encode P tle)) \<noteq> header ! 4 \<or>
            PStr (sha3 P (rlp_encode P uncs)) \<noteq> header ! 1 \<or>
            (r \<noteq> BLANK_NODE \<and> db_get P dbs r = [])) \<and>
         (\<not> isl (Block_init P dbs header transaction_list uncs True) \<longrightarrow>
            Block_init P dbs header transaction_list uncs True = Inr (Block_fields dbs header r txs uncs))"
proof -
  let ?b = "Block_fields dbs header r txs uncs"
  have f: "transactions_root ?b = header ! 4" "uncles_root ?b = header ! 1" "uncles ?b = uncs"
    "root (state ?b) = r" "db (state ?b) = dbs"
    by (simp_all add: Block_fields_def)
  have tle: "rlp_enc P tle = Inr (rlp_encode P tle)"
    using recursive_int_to_big_endian_int_free [OF assms(5)] by (simp add: rlp_enc_def)
  have un: "rlp_enc P uncs = Inr (rlp_encode P uncs)"
    using hash_uncles_int_free [OF assms(4)] by (simp add: rlp_enc_def f)
  have init: "Block_init P dbs header transaction_list uncs v = (if v then verify P transaction_list ?b else Inr ?b)" for v
    using assms(1-4) by (simp add: Block_init_def Let_def)
  have ver: "verify P transaction_list ?b =
      (if PStr (sha3 P (rlp_encode P tle)) \<noteq> header ! 4
       then Inl (Exception ''Transaction list root hash does not match!'')
       else if PStr (sha3 P (rlp_encode P uncs)) \<noteq> header ! 1
       then Inl (Exception ''Uncle root hash does not match!'')
       else if r \<noteq> BLANK_NODE \<and> db_get P dbs r = []
       then Inl (Exception ''State Merkle root not found in database!'')
       else Inr ?b)"
    using assms(5) tle un by (simp add: verify_def f)
  show ?thesis
    by (simp add: init ver)
qed

lemma hash_valid_header:
  "\<exists>h. hash ref_prims (Block_fields empty_store valid_header BLANK_NODE [] (PList [])) = Inr h"
proof -
  have "hex_decode (replicate 40 (CHR ''0'')) = Inr (replicate 20 (char_of (0::nat)))"
    using hex_decode_zeros [of 20] by simp
  then show ?thesis
    by (simp add: hash_def serialize_def serialize_struct_def Block_fields_def valid_header_def
        encode_int_def rlp_enc_def decode_hex_val_def encode_int_val_def BLANK_NODE_def)
qed

theorem Block_init_validation_witness:
  "Block_init ref_prims empty_store valid_header [] (PList []) True =
     Inr (Block_fields empty_store valid_header BLANK_NODE [] (PList [])) \<and>
   isl (Block_init ref_prims empty_store genesis_header [] (PList []) True)"
proof -
  obtain h where h: "hash ref_prims (Block_fields empty_store valid_header BLANK_NODE [] (PList [])) = Inr h"
    using hash_valid_header by blast
  obtain g where g: "hash ref_prims (Block_fields empty_store genesis_header BLANK_NODE [] (PList [])) = Inr g"
    using hash_genesis [of ref_prims empty_store] by (auto simp: genesis_block_def)
  have l: "9 \<le> length valid_header" "valid_header ! 3 = PStr BLANK_NODE"
    "9 \<le> length genesis_header" "genesis_header ! 3 = PStr BLANK_NODE"
    by (simp_all add: valid_header_def genesis_header_def)
  have t: "sequenceE (map (Transaction_new ref_prims) []) = Inr []"
    "recursive_int_to_big_endian (PList []) = Inr (PList [])"
    by simp_all
  have v: "PStr (sha3 ref_prims (rlp_encode ref_prims (PList []))) = valid_header ! 4"
    "PStr (sha3 ref_prims (rlp_encode ref_prims (PList []))) = valid_header ! 1"
    "PStr (sha3 ref_prims (rlp_encode ref_prims (PList []))) \<noteq> genesis_header ! 4"
    by (simp_all add: ref_prims_def valid_header_def genesis_header_def)
  show ?thesis
    using Block_init_validation [OF l(1,2) t(1) h t(2)] Block_init_validation [OF l(3,4) t(1) g t(2)] v
    by simp
qed

text \<open>
  Claim C2 as stated fails. On a header of canonical-byte fields whose transactions
  root and uncles root are the digests of the encoded empty lists and whose state root
  is blank, none of the three conditions holds, and construction raises all the same,
  with validation and without: the hash computed for the log line at line 58 decodes the
  coinbase as hex text and encodes the numeric attributes as integers.
\<close>

theorem Block_init_validation_counterexample:
  "recursive_int_to_big_endian (PList []) = Inr (PList []) \<and>
   PStr (sha3 ref_prims (rlp_encode ref_prims (PList []))) = wire_valid_header ! 4 \<and>
   PStr (sha3 ref_prims (rlp_encode ref_prims (PList []))) = wire_valid_header ! 1 \<and>
   wire_valid_header ! 3 = PStr BLANK_NODE \<and>
   Block_init ref_prims empty_store wire_valid_header [] (PList []) True =
     (Inl TypeError :: error + pyval block) \<and>
   Block_init ref_prims empty_store wire_valid_header [] (PList []) False =
     (Inl TypeError :: error + pyval block)"
proof -
  have hv: "hex_val (CHR 0x00) = None"
    by (simp add: hex_val_def)
  have "replicate 20 (CHR 0x00) = CHR 0x00 # CHR 0x00 # replicate 18 (CHR 0x00)"
    by (simp add: numeral_eq_Suc)
  then have hd: "hex_decode (replicate 20 (CHR 0x00)) = Inl TypeError"
    by (simp add: hv)
  have wire: "Block_init ref_prims empty_store wire_valid_header [] (PList []) v =
      (Inl TypeError :: error + pyval block)" for v
    by (simp add: Block_init_def wire_valid_header_def hash_def serialize_def serialize_struct_def
        Block_fields_def encode_int_def rlp_enc_def decode_hex_val_def hd ref_prims_def)
  show ?thesis
    using wire by (simp add: wire_valid_header_def ref_prims_def)
qed

lemma Block_init_unfold:
  assumes "Block_init P dbs header transaction_list uncs validate = Inr b"
  shows "\<exists>r txs h. 9 \<le> length header \<and> header ! 3 = PStr r \<and>
           sequenceE (map (Transaction_new P) transaction_list) = Inr txs \<and>
           b = Block_fields dbs header r txs uncs \<and> hash P b = Inr h"
proof -
  from assms obtain r where r: "header ! 3 = PStr r"
    by (cases "header ! 3") (auto simp: Block_init_def split: if_splits)
  from assms r have len: "9 \<le> length header"
    by (auto simp: Block_init_def split: if_splits)
  from assms len r obtain txs h where txs: "sequenceE (map (Transaction_new P) transaction_list) = Inr txs"
    and h: "hash P (Block_fields dbs header r txs uncs) = Inr h"
    and v: "(if validate then verify P transaction_list (Block_fields dbs header r txs uncs)
            else Inr (Block_fields dbs header r txs uncs)) = Inr b"
    by (auto simp: Block_init_def bindE_eq_Inr Let_def)
  have "b = Block_fields dbs header r txs uncs"
    using v by (auto simp: verify_def bindE_eq_Inr split: if_splits)
  then show ?thesis using len r txs h by auto
qed

lemma hex_digit_lower:
  assumes "d < 16"
  shows "(48 \<le> (of_char (hex_digit d) :: nat) \<and> (of_char (hex_digit d) :: nat) \<le> 57) \<or>
         (97 \<le> (of_char (hex_digit d) :: nat) \<and> (of_char (hex_digit d) :: nat) \<le> 102)"
  using assms by (auto simp: hex_digit_def)

lemma hex_encode_lower:
  assumes "c \<in> set (hex_encode s)"
  shows "(48 \<le> (of_char c :: nat) \<and> (of_char c :: nat) \<le> 57) \<or>
         (97 \<le> (of_char c :: nat) \<and> (of_char c :: nat) \<le> 102)"
proof -
  from assms obtain x where "c = hex_digit ((of_char x :: nat) div 16) \<or> c = hex_digit ((of_char x :: nat) mod 16)"
    by (auto simp: hex_encode_def)
  moreover have "(of_char x :: nat) div 16 < 16" by (simp add: less_mult_imp_div_less)
  moreover have "(of_char x :: nat) mod 16 < 16" by simp
  ultimately show ?thesis using hex_digit_lower by metis
qed

lemma length_hex_encode: "length (hex_encode s) = 2 * length s"
  by (induction s) (simp_all add: hex_encode_def)

section \<open>Header attributes\<close>

text \<open>
  Claim C4, as amended. The constructor decodes nothing: after a construction that
  succeeds, in either validation mode, every header attribute is the header entry at
  its position, unchanged. The decoding is \<^verbatim>\<open>cast_block_header_from_rlp_decoded\<close>: when
  the header is its result on canonical-byte fields, the difficulty, timestamp and nonce
  of the block are the integers decoded from the byte fields and the coinbase is the
  hex text of the coinbase bytes, two lowercase hex digits for each byte.
\<close>

theorem Block_init_header_entries:
  assumes "Block_init P dbs header transaction_list uncs validate = Inr b"
  shows "prevhash b = header ! 0 \<and> uncles_root b = header ! 1 \<and> coinbase b = header ! 2 \<and>
         PStr (root (state b)) = header ! 3 \<and> transactions_root b = header ! 4 \<and>
         difficulty b = header ! 5 \<and> timestamp b = header ! 6 \<and> extradata b = header ! 7 \<and>
         nonce b = header ! 8 \<and>
         (header = cast_block_header_from_rlp_decoded ph ur cb st tr d ts ex n \<longrightarrow>
            difficulty b = PInt (decode_int d) \<and> timestamp b = PInt (decode_int ts) \<and>
            nonce b = PInt (decode_int n) \<and> coinbase b = PStr (hex_encode cb) \<and>
            length (hex_encode cb) = 2 * length cb \<and>
            (\<forall>c\<in>set (hex_encode cb).
               (48 \<le> (of_char c :: nat) \<and> (of_char c :: nat) \<le> 57) \<or>
               (97 \<le> (of_char c :: nat) \<and> (of_char c :: nat) \<le> 102)))"
proof -
  from Block_init_unfold [OF assms] obtain r txs where
    r: "header ! 3 = PStr r" and b: "b = Block_fields dbs header r txs uncs"
    by blast
  have entries: "prevhash b = header ! 0 \<and> uncles_root b = header ! 1 \<and> coinbase b = header ! 2 \<and>
         PStr (root (state b)) = header ! 3 \<and> transactions_root b = header ! 4 \<and>
         difficulty b = header ! 5 \<and> timestamp b = header ! 6 \<and> extradata b = header ! 7 \<and>
         nonce b = header ! 8"
    using r by (simp add: b Block_fields_def)
  have cast: "difficulty b = PInt (decode_int d) \<and> timestamp b = PInt (decode_int ts) \<and>
            nonce b = PInt (decode_int n) \<and> coinbase b = PStr (hex_encode cb)"
    if "header = cast_block_header_from_rlp_decoded ph ur cb st tr d ts ex n"
    using entries that by (simp add: cast_block_header_from_rlp_decoded_def)
  show ?thesis
    using entries cast length_hex_encode hex_encode_lower by blast
qed

lemma Block_init_cast:
  "Block_init P dbs (cast_block_header_from_rlp_decoded ph ur cb st tr d ts ex n) [] (PList []) False =
     Inr (Block_fields dbs (cast_block_header_from_rlp_decoded ph ur cb st tr d ts ex n) st [] (PList []))"
  using decode_int_nonneg [of d] decode_int_nonneg [of ts] decode_int_nonneg [of n]
  by (simp add: Block_init_def cast_block_header_from_rlp_decoded_def hash_def serialize_def
      serialize_struct_def Block_fields_def encode_int_def rlp_enc_def decode_hex_val_def
      encode_int_val_def hex_decode_encode)

theorem Block_init_header_entries_witness:
  "\<exists>b. Block_init ref_prims empty_store
          (cast_block_header_from_rlp_decoded [] [] (replicate 20 (CHR 0x00)) [] [] [CHR 0x01] [] [] [])
          [] (PList []) False = Inr b \<and>
        difficulty b = PInt 1 \<and> timestamp b = PInt 0 \<and> nonce b = PInt 0 \<and>
        coinbase b = PStr (hex_encode (replicate 20 (CHR 0x00))) \<and>
        length (hex_encode (replicate 20 (CHR 0x00))) = 40"
proof -
  let ?h = "cast_block_header_from_rlp_decoded [] [] (replicate 20 (CHR 0x00)) [] [] [CHR 0x01] [] [] []"
  let ?b = "Block_fields empty_store ?h [] [] (PList []) :: pyval block"
  have i: "Block_init ref_prims empty_store ?h [] (PList []) False = Inr ?b"
    by (rule Block_init_cast)
  have d: "decode_int [CHR 0x01] = 1" "decode_int [] = 0"
    by (simp_all add: decode_int_def)
  show ?thesis
    using Block_init_header_entries [OF i, of "[]" "[]" "replicate 20 (CHR 0x00)" "[]" "[]" "[CHR 0x01]" "[]" "[]" "[]"] i d
    by auto
qed

text \<open>
  Claim C4 as stated fails. On a header of canonical-byte fields (a binary coinbase of
  20 bytes, the difficulty as the byte 1) the assignments of lines 44 to 53 leave the
  byte string as the difficulty, not the integer 1, and the 20 bytes as the coinbase, not
  their hex text, and the constructor then raises in either validation mode. On the
  genesis header, where it succeeds, the coinbase and the difficulty of the block are
  the header entries themselves.
\<close>

theorem Block_init_header_entries_counterexample:
  "difficulty (Block_fields empty_store wire_header [] [] (PList []) :: pyval block) = PStr [CHR 0x01] \<and>
   PStr [CHR 0x01] \<noteq> PInt (decode_int [CHR 0x01]) \<and>
   coinbase (Block_fields empty_store wire_header [] [] (PList []) :: pyval block) =
     PStr (replicate 20 (CHR 0x00)) \<and>
   PStr (replicate 20 (CHR 0x00)) \<noteq> PStr (hex_encode (replicate 20 (CHR 0x00))) \<and>
   Block_init ref_prims empty_store wire_header [] (PList []) False = (Inl TypeError :: error + pyval block) \<and>
   Block_init ref_prims empty_store wire_header [] (PList []) True = (Inl TypeError :: error + pyval block) \<and>
   Block_init ref_prims empty_store genesis_header [] (PList []) False =
     Inr (genesis_block empty_store :: pyval block) \<and>
   genesis_header ! 2 = PStr (replicate 40 (CHR ''0'')) \<and>
   coinbase (genesis_block empty_store :: pyval block) = PStr (replicate 40 (CHR ''0'')) \<and>
   coinbase (genesis_block empty_store :: pyval block) \<noteq> PStr (hex_encode (replicate 40 (CHR ''0''))) \<and>
   genesis_header ! 5 = PInt (2 ^ 23) \<and>
   difficulty (genesis_block empty_store :: pyval block) = PInt (2 ^ 23)"
proof -
  have "length (hex_encode (replicate 40 (CHR ''0''))) \<noteq> length (replicate 40 (CHR ''0''))"
    by (simp add: length_hex_encode)
  then have ne: "hex_encode (replicate 40 (CHR ''0'')) \<noteq> replicate 40 (CHR ''0'')"
    by metis
  have "length (hex_encode (replicate 20 (CHR 0x00))) \<noteq> length (replicate 20 (CHR 0x00))"
    by (simp add: length_hex_encode)
  then have ne0: "replicate 20 (CHR 0x00) \<noteq> hex_encode (replicate 20 (CHR 0x00))"
    by metis
  have hv: "hex_val (CHR 0x00) = None"
    by (simp add: hex_val_def)
  have "replicate 20 (CHR 0x00) = CHR 0x00 # CHR 0x00 # replicate 18 (CHR 0x00)"
    by (simp add: numeral_eq_Suc)
  then have hd: "hex_decode (replicate 20 (CHR 0x00)) = Inl TypeError"
    by (simp add: hv)
  have wire: "Block_init ref_prims empty_store wire_header [] (PList []) v = (Inl TypeError :: error + pyval block)" for v
    by (simp add: Block_init_def wire_header_def hash_def serialize_def serialize_struct_def
        Block_fields_def encode_int_def rlp_enc_def decode_hex_val_def hd ref_prims_def)
  have fields: "difficulty (Block_fields empty_store wire_header [] [] (PList []) :: pyval block) = PStr [CHR 0x01]"
    "coinbase (Block_fields empty_store wire_header [] [] (PList []) :: pyval block) = PStr (replicate 20 (CHR 0x00))"
    by (simp_all add: Block_fields_def wire_header_def)
  show ?thesis
    using Block_init_genesis [of ref_prims empty_store] ne ne0 wire fields
    by (simp add: genesis_block_def Block_fields_def genesis_header_def)
qed

lemma serialize_struct_difficulty:
  assumes "difficulty b = PStr x"
  shows "isl (serialize_struct P b)"
  using assms
  by (auto simp: serialize_struct_def bindE_def encode_int_val_def split: sum.splits)

lemma serialize_struct_shape:
  assumes "serialize_struct P b = Inr s"
  shows "\<exists>n ue cb te d ts nc txlist.
           s = PList [PList [PStr n, prevhash b, PStr ue, PStr cb, PStr (root (state b)), PStr te,
                             PStr d, PStr ts, extradata b, PStr nc],
                      PList txlist, uncles b]"
  using assms by (auto simp: serialize_struct_def bindE_eq_Inr)

lemma rebuild_raises:
  assumes "serialize P b = Inr bytes" and "serialize_struct P b = Inr s"
    and "rlp_decode P bytes = Some s"
  shows "isl (rebuild P dbs bytes)"
proof -
  from serialize_struct_shape [OF assms(2)] obtain n ue cb te d ts nc txlist where
    s: "s = PList [PList [PStr n, prevhash b, PStr ue, PStr cb, PStr (root (state b)), PStr te,
                          PStr d, PStr ts, extradata b, PStr nc],
                   PList txlist, uncles b]"
    by blast
  let ?h = "[PStr n, prevhash b, PStr ue, PStr cb, PStr (root (state b)), PStr te,
             PStr d, PStr ts, extradata b, PStr nc]"
  have r: "rebuild P dbs bytes = Block_init P dbs ?h txlist (uncles b) False"
    using assms(3) by (simp add: rebuild_def s)
  have h: "isl (hash P (Block_fields dbs ?h cb txs (uncles b)))" for txs
    using serialize_struct_difficulty [of "Block_fields dbs ?h cb txs (uncles b)" te P]
    by (auto simp: hash_def serialize_def Block_fields_def bindE_def split: sum.splits)
  have "isl (Block_init P dbs ?h txlist (uncles b) False)"
  proof (cases "sequenceE (map (Transaction_new P) txlist)")
    case (Inl e)
    then show ?thesis by (simp add: Block_init_def)
  next
    case (Inr txs)
    from h [of txs] obtain e where "hash P (Block_fields dbs ?h cb txs (uncles b)) = Inl e"
      by (cases "hash P (Block_fields dbs ?h cb txs (uncles b))") auto
    then show ?thesis using Inr by (simp add: Block_init_def Let_def)
  qed
  then show ?thesis by (simp add: r)
qed

section \<open>Serialization and the constructor\<close>

text \<open>
  Claim C1 fails on the code. The block built from the genesis header serializes, and
  the bytes parse back to what was encoded; but \<^verbatim>\<open>serialize\<close> writes a header of ten
  entries, with the number first and the integers and the coinbase in byte form, while
  the constructor reads nine positions and keeps them as they come. Every attribute is
  read one position off (the position of the state root holds the coinbase bytes, the
  position of the difficulty holds the digest of the transactions), and constructing a
  block from the parsed bytes with validation disabled raises \<^verbatim>\<open>TypeError\<close>.
\<close>

theorem roundtrip_raises_on_genesis:
  "Block_init ref_prims empty_store genesis_header [] (PList []) False =
     Inr (genesis_block empty_store :: pyval block) \<and>
   serialize_struct ref_prims (genesis_block empty_store :: pyval block) =
     Inr (PList [PList genesis_wire_header, PList [], PList []]) \<and>
   serialize ref_prims (genesis_block empty_store :: pyval block) =
     Inr (rlp_encode ref_prims (PList [PList genesis_wire_header, PList [], PList []])) \<and>
   rlp_decode ref_prims (rlp_encode ref_prims (PList [PList genesis_wire_header, PList [], PList []])) =
     Some (PList [PList genesis_wire_header, PList [], PList []]) \<and>
   length genesis_wire_header = 10 \<and> length genesis_header = 9 \<and>
   genesis_wire_header ! 3 = PStr (replicate 20 (char_of (0::nat))) \<and>
   root (state (genesis_block empty_store :: pyval block)) = [] \<and>
   genesis_wire_header ! 5 = PStr ''#[]'' \<and>
   difficulty (genesis_block empty_store :: pyval block) = PInt (2 ^ 23) \<and>
   Block_init ref_prims empty_store genesis_wire_header [] (PList []) False =
     (Inl TypeError :: error + pyval block) \<and>
   bindE (serialize ref_prims (genesis_block empty_store :: pyval block)) (rebuild ref_prims empty_store) =
     (Inl TypeError :: error + pyval block)"
proof -
  let ?s = "PList [PList genesis_wire_header, PList [], PList []]"
  have st: "serialize_struct ref_prims (genesis_block empty_store :: pyval block) = Inr ?s"
    by (simp add: serialize_struct_genesis genesis_wire_header_def ref_prims_def BLANK_NODE_def)
  have fr: "int_free ?s"
    by (simp add: genesis_wire_header_def)
  have ser: "serialize ref_prims (genesis_block empty_store :: pyval block) = Inr (rlp_encode ref_prims ?s)"
    using fr by (simp add: serialize_def st rlp_enc_def)
  have dec: "rlp_decode ref_prims (rlp_encode ref_prims ?s) = Some ?s"
    using ref_decode_encode [OF fr] by (simp add: ref_prims_def)
  have hv: "hex_val (CHR ''#'') = None"
    by (simp add: hex_val_def)
  have init: "Block_init ref_prims empty_store genesis_wire_header [] (PList []) False =
      (Inl TypeError :: error + pyval block)"
    by (simp add: Block_init_def genesis_wire_header_def hash_def serialize_def serialize_struct_def
        Block_fields_def encode_int_def rlp_enc_def decode_hex_val_def hv ref_prims_def)
  have reb: "rebuild ref_prims empty_store (rlp_encode ref_prims ?s) = (Inl TypeError :: error + pyval block)"
    unfolding rebuild_def dec using init by simp
  have g: "root (state (genesis_block empty_store :: pyval block)) = []"
    "difficulty (genesis_block empty_store :: pyval block) = PInt (2 ^ 23)"
    by (simp_all add: genesis_block_def Block_fields_def genesis_header_def BLANK_NODE_def)
  have l: "length genesis_wire_header = 10" "length genesis_header = 9"
    "genesis_wire_header ! 3 = PStr (replicate 20 (char_of (0::nat)))"
    "genesis_wire_header ! 5 = PStr ''#[]''"
    by (simp_all add: genesis_wire_header_def genesis_header_def)
  show ?thesis
    using Block_init_genesis [of ref_prims empty_store] st ser dec init reb g l
    by simp
qed

lemma store_le_refl: "store_le s s"
  by (simp add: store_le_def)

lemma store_le_trans: "store_le s s' \<Longrightarrow> store_le s' s'' \<Longrightarrow> store_le s s''"
  by (auto simp: store_le_def intro: map_le_trans)

lemma grows_refl: "content_addressed P (db (state b)) \<Longrightarrow> grows P b b"
  by (simp add: grows_def store_le_refl)

lemma grows_trans:
  assumes "grows P b b'" and "grows P b' b''"
  shows "grows P b b''"
proof -
  from assms have e1: "b'\<lparr>state := state b, gas_consumed := gas_consumed b\<rparr> = b"
    and e2: "b''\<lparr>state := state b', gas_consumed := gas_consumed b'\<rparr> = b'"
    by (simp_all add: grows_def)
  have "b''\<lparr>state := state b, gas_consumed := gas_consumed b\<rparr> =
        (b''\<lparr>state := state b', gas_consumed := gas_consumed b'\<rparr>)\<lparr>state := state b, gas_consumed := gas_consumed b\<rparr>"
    by simp
  also have "\<dots> = b" by (simp only: e2 e1)
  finally show ?thesis using assms by (auto simp: grows_def intro: store_le_trans)
qed

lemma trie_store_extends:
  assumes "inj (sha3 P)" and "inj (\<lambda>m. rlp_encode P (ser m))"
    and "\<forall>r m. vs r = Some m \<longrightarrow> r = sha3 P (rlp_encode P (ser m))"
  shows "vs \<subseteq>\<^sub>m snd (trie_store P ser vs m) \<and>
         (\<forall>r m'. snd (trie_store P ser vs m) r = Some m' \<longrightarrow> r = sha3 P (rlp_encode P (ser m')))"
proof (cases "m = []")
  case True
  then show ?thesis using assms(3) by (simp add: trie_store_def)
next
  case False
  let ?r = "sha3 P (rlp_encode P (ser m))"
  have same: "m0 = m" if "vs ?r = Some m0" for m0
  proof -
    from assms(3) that have "?r = sha3 P (rlp_encode P (ser m0))" by blast
    then have "rlp_encode P (ser m) = rlp_encode P (ser m0)" using assms(1) by (simp add: inj_eq)
    then show ?thesis using assms(2) by (auto dest: injD)
  qed
  have "vs \<subseteq>\<^sub>m vs(?r \<mapsto> m)"
    using same by (auto simp: map_le_def)
  then show ?thesis using False assms(3) by (auto simp: trie_store_def Let_def)
qed

lemma store_le_state_nodes: "state_nodes s \<subseteq>\<^sub>m vs \<Longrightarrow> store_le s (s\<lparr>state_nodes := vs\<rparr>)"
  by (simp add: store_le_def)

lemma store_le_storage_nodes: "storage_nodes s \<subseteq>\<^sub>m vs \<Longrightarrow> store_le s (s\<lparr>storage_nodes := vs\<rparr>)"
  by (simp add: store_le_def)

lemma store_le_blobs: "blobs s \<subseteq>\<^sub>m bs \<Longrightarrow> store_le s (s\<lparr>blobs := bs\<rparr>)"
  by (simp add: store_le_def)

lemma content_addressed_state_nodes:
  assumes "content_addressed P s"
    and "\<forall>r m. vs r = Some m \<longrightarrow> r = sha3 P (rlp_encode P (acct_node m))"
  shows "content_addressed P (s\<lparr>state_nodes := vs\<rparr>)"
proof -
  have sel: "state_nodes (s\<lparr>state_nodes := vs\<rparr>) = vs"
    "storage_nodes (s\<lparr>state_nodes := vs\<rparr>) = storage_nodes s"
    "blobs (s\<lparr>state_nodes := vs\<rparr>) = blobs s"
    by simp_all
  show ?thesis
    unfolding content_addressed_def sel
    using assms(1) [unfolded content_addressed_def] assms(2) by blast
qed

lemma content_addressed_storage_nodes:
  assumes "content_addressed P s"
    and "\<forall>r m. vs r = Some m \<longrightarrow> r = sha3 P (rlp_encode P (slot_node m))"
  shows "content_addressed P (s\<lparr>storage_nodes := vs\<rparr>)"
proof -
  have sel: "state_nodes (s\<lparr>storage_nodes := vs\<rparr>) = state_nodes s"
    "storage_nodes (s\<lparr>storage_nodes := vs\<rparr>) = vs"
    "blobs (s\<lparr>storage_nodes := vs\<rparr>) = blobs s"
    by simp_all
  show ?thesis
    unfolding content_addressed_def sel
    using assms(1) [unfolded content_addressed_def] assms(2) by blast
qed

lemma content_addressed_blobs:
  assumes "content_addressed P s"
    and "\<forall>k v. bs k = Some v \<longrightarrow> k = sha3 P v"
  shows "content_addressed P (s\<lparr>blobs := bs\<rparr>)"
proof -
  have sel: "state_nodes (s\<lparr>blobs := bs\<rparr>) = state_nodes s"
    "storage_nodes (s\<lparr>blobs := bs\<rparr>) = storage_nodes s"
    "blobs (s\<lparr>blobs := bs\<rparr>) = bs"
    by simp_all
  show ?thesis
    unfolding content_addressed_def sel
    using assms(1) [unfolded content_addressed_def] assms(2) by blast
qed

lemma state_trie_update_grows:
  assumes "collision_free P" and "content_addressed P (db t)" and "state_trie_update P t k v = Inr t'"
  shows "store_le (db t) (db t') \<and> content_addressed P (db t')"
proof -
  from assms(3) obtain m where
    t': "t' = t\<lparr>root := fst (trie_store P acct_node (state_nodes (db t)) m),
                  db := (db t)\<lparr>state_nodes := snd (trie_store P acct_node (state_nodes (db t)) m)\<rparr>\<rparr>"
    by (auto simp: state_trie_update_def bindE_eq_Inr case_prod_beta)
  have db': "db t' = (db t)\<lparr>state_nodes := snd (trie_store P acct_node (state_nodes (db t)) m)\<rparr>"
    by (simp add: t')
  have i: "inj (sha3 P)" "inj (\<lambda>m. rlp_encode P (acct_node m))"
    using assms(1) unfolding collision_free_def by blast+
  have pre: "\<forall>r m. state_nodes (db t) r = Some m \<longrightarrow> r = sha3 P (rlp_encode P (acct_node m))"
    using assms(2) unfolding content_addressed_def by blast
  from trie_store_extends [OF i pre, of m] show ?thesis
    unfolding db'
    by (blast intro: store_le_state_nodes content_addressed_state_nodes [OF assms(2)])
qed

lemma storage_write_grows:
  assumes "collision_free P" and "content_addressed P (db t)" and "storage_write P t k val = Inr t'"
  shows "store_le (db t) (db t') \<and> content_addressed P (db t')"
proof -
  from assms(3) obtain m where
    t': "t' = t\<lparr>root := fst (trie_store P slot_node (storage_nodes (db t)) m),
                  db := (db t)\<lparr>storage_nodes := snd (trie_store P slot_node (storage_nodes (db t)) m)\<rparr>\<rparr>"
    by (auto simp: storage_write_def storage_trie_update_def storage_trie_delete_def bindE_eq_Inr
        case_prod_beta split: if_splits)
  have db': "db t' = (db t)\<lparr>storage_nodes := snd (trie_store P slot_node (storage_nodes (db t)) m)\<rparr>"
    by (simp add: t')
  have i: "inj (sha3 P)" "inj (\<lambda>m. rlp_encode P (slot_node m))"
    using assms(1) unfolding collision_free_def by blast+
  have pre: "\<forall>r m. storage_nodes (db t) r = Some m \<longrightarrow> r = sha3 P (rlp_encode P (slot_node m))"
    using assms(2) unfolding content_addressed_def by blast
  from trie_store_extends [OF i pre, of m] show ?thesis
    unfolding db'
    by (blast intro: store_le_storage_nodes content_addressed_storage_nodes [OF assms(2)])
qed

lemma content_addressed_durable:
  "content_addressed P (s\<lparr>durable := d\<rparr>) = content_addressed P s"
  by (simp add: content_addressed_def)

lemma db_put_grows:
  assumes "collision_free P" and "content_addressed P s"
  shows "store_le s (db_commit (db_put s (sha3 P v) v)) \<and>
         content_addressed P (db_commit (db_put s (sha3 P v) v))"
proof -
  have pre: "\<forall>k v. blobs s k = Some v \<longrightarrow> k = sha3 P v"
    using assms(2) unfolding content_addressed_def by blast
  have i: "inj (sha3 P)" using assms(1) unfolding collision_free_def by blast
  have same: "v0 = v" if "blobs s (sha3 P v) = Some v0" for v0
  proof -
    from pre that have "sha3 P v = sha3 P v0" by blast
    then show ?thesis using i by (auto dest: injD)
  qed
  have le: "blobs s \<subseteq>\<^sub>m (blobs s)(sha3 P v \<mapsto> v)"
    using same by (auto simp: map_le_def)
  have ca: "\<forall>k w. ((blobs s)(sha3 P v \<mapsto> v)) k = Some w \<longrightarrow> k = sha3 P w"
    using pre by (auto split: if_splits)
  have e: "db_commit (db_put s (sha3 P v) v) =
      (s\<lparr>blobs := (blobs s)(sha3 P v \<mapsto> v)\<rparr>)\<lparr>durable := (blobs s)(sha3 P v \<mapsto> v)\<rparr>"
    by (simp add: db_commit_def db_put_def)
  have "store_le s (s\<lparr>blobs := (blobs s)(sha3 P v \<mapsto> v)\<rparr>)"
    by (rule store_le_blobs [OF le])
  then have l: "store_le s ((s\<lparr>blobs := (blobs s)(sha3 P v \<mapsto> v)\<rparr>)\<lparr>durable := (blobs s)(sha3 P v \<mapsto> v)\<rparr>)"
    by (simp add: store_le_def)
  have "content_addressed P (s\<lparr>blobs := (blobs s)(sha3 P v \<mapsto> v)\<rparr>)"
    by (rule content_addressed_blobs [OF assms(2) ca])
  then have c: "content_addressed P ((s\<lparr>blobs := (blobs s)(sha3 P v \<mapsto> v)\<rparr>)\<lparr>durable := (blobs s)(sha3 P v \<mapsto> v)\<rparr>)"
    by (simp only: content_addressed_durable)
  show ?thesis unfolding e using l c by blast
qed

lemma set_index_grows:
  assumes "collision_free P" and "content_addressed P (db (state b))"
    and "set_index P b address index v = Inr b'"
  shows "grows P b b'"
proof -
  from set_index_unfold [OF assms(3)] obtain a acct t where
    t: "state_trie_update P (state b) a (acct[index := v]) = Inr t" and b': "b' = b\<lparr>state := t\<rparr>"
    by blast
  from state_trie_update_grows [OF assms(1,2) t] show ?thesis
    by (simp add: grows_def b')
qed

lemma delta_index_grows:
  assumes "collision_free P" and "content_addressed P (db (state b))"
    and "delta_index P b address index v = Inr (ok, b')"
  shows "grows P b b'"
proof (cases ok)
  case False
  then have "b' = b" using assms(3)
    by (auto simp: delta_index_def bindE_eq_Inr split: if_splits)
  then show ?thesis using assms(2) by (simp add: grows_refl)
next
  case True
  then obtain a acct t where
    t: "state_trie_update P (state b) a acct = Inr t" and b': "b' = b\<lparr>state := t\<rparr>"
    using assms(3) by (auto simp: delta_index_def bindE_eq_Inr split: if_splits)
  from state_trie_update_grows [OF assms(1,2) t] show ?thesis
    by (simp add: grows_def b')
qed

lemma set_code_grows:
  assumes "collision_free P" and "content_addressed P (db (state b))"
    and "set_code P b address v = Inr b'"
  shows "grows P b b'"
proof -
  let ?b1 = "b\<lparr>state := (state b)\<lparr>db := db_commit (db_put (db (state b)) (sha3 P v) v)\<rparr>\<rparr>"
  have s: "set_index P ?b1 address CODE_INDEX (sha3 P v) = Inr b'"
    using assms(3) by (simp add: set_code_unfold)
  from db_put_grows [OF assms(1,2), of v] have g1: "grows P b ?b1"
    by (simp add: grows_def)
  then have "content_addressed P (db (state ?b1))" by (simp add: grows_def)
  from set_index_grows [OF assms(1) this s] have "grows P ?b1 b'" .
  with g1 show ?thesis by (rule grows_trans)
qed

lemma set_storage_data_grows:
  assumes "collision_free P" and "content_addressed P (db (state b))"
    and "set_storage_data P b address index val = Inr b'"
  shows "grows P b b'"
proof -
  from set_storage_data_unfold [OF assms(3)] obtain t k t' where
    t: "get_storage b address = Inr t" and w: "storage_write P t k val = Inr t'"
    and s: "set_index P (b\<lparr>state := (state b)\<lparr>db := db t'\<rparr>\<rparr>) address STORAGE_INDEX (root t') = Inr b'"
    by blast
  let ?b1 = "b\<lparr>state := (state b)\<lparr>db := db t'\<rparr>\<rparr>"
  have dbt: "db t = db (state b)"
    using t by (auto simp: get_storage_def bindE_eq_Inr)
  from storage_write_grows [OF assms(1) _ w] assms(2) dbt have g1: "grows P b ?b1"
    by (simp add: grows_def)
  then have "content_addressed P (db (state ?b1))" by (simp add: grows_def)
  from set_index_grows [OF assms(1) this s] have "grows P ?b1 b'" .
  with g1 show ?thesis by (rule grows_trans)
qed

lemma apply_mutation_grows:
  assumes "collision_free P" and "content_addressed P (db (state b))"
    and "apply_mutation P b m = Inr b'"
  shows "grows P b b'"
proof (cases m)
  case (Delta_balance a v)
  then obtain ok where "delta_index P b a BALANCE_INDEX v = Inr (ok, b')"
    using assms(3) by (auto simp: delta_balance_def bindE_eq_Inr)
  then show ?thesis by (rule delta_index_grows [OF assms(1,2)])
next
  case (Increment_nonce a)
  then obtain ok where "delta_index P b a NONCE_INDEX 1 = Inr (ok, b')"
    using assms(3) by (auto simp: increment_nonce_def bindE_eq_Inr)
  then show ?thesis by (rule delta_index_grows [OF assms(1,2)])
next
  case (Set_balance a v)
  then obtain e where "set_index P b a BALANCE_INDEX e = Inr b'"
    using assms(3) by (auto simp: set_balance_def bindE_eq_Inr)
  then show ?thesis by (rule set_index_grows [OF assms(1,2)])
next
  case (Set_code a c)
  then show ?thesis using set_code_grows [OF assms(1,2)] assms(3) by simp
next
  case (Set_storage_data a k v)
  then show ?thesis using set_storage_data_grows [OF assms(1,2)] assms(3) by simp
next
  case (Set_gas_consumed g)
  then have "b' = b\<lparr>gas_consumed := g\<rparr>" using assms(3) by simp
  then show ?thesis using assms(2) by (simp add: grows_def store_le_refl)
qed

lemma apply_mutations_grows:
  assumes "collision_free P" and "content_addressed P (db (state b))"
    and "apply_mutations P b ms = Inr b'"
  shows "grows P b b'"
  using assms(2,3)
proof (induction ms arbitrary: b)
  case Nil
  then show ?case by (simp add: grows_refl)
next
  case (Cons m ms)
  from Cons.prems(2) obtain b1 where m: "apply_mutation P b m = Inr b1"
    and ms: "apply_mutations P b1 ms = Inr b'"
    by (auto simp: bindE_eq_Inr)
  from apply_mutation_grows [OF assms(1) Cons.prems(1) m] have g1: "grows P b b1" .
  then have "content_addressed P (db (state b1))" by (simp add: grows_def)
  from Cons.IH [OF this ms] g1 show ?case by (blast intro: grows_trans)
qed

lemma trie_load_mono:
  assumes "trie_load vs r = Inr m" and "vs \<subseteq>\<^sub>m vs'"
  shows "trie_load vs' r = Inr m"
proof (cases "r = BLANK_NODE")
  case True
  then show ?thesis using assms(1) by (simp add: trie_load_def)
next
  case False
  then have "vs r = Some m" using assms(1)
    by (auto simp: trie_load_def split: option.splits)
  then have "vs' r = Some m" using assms(2) by (auto simp: map_le_def dom_def)
  then show ?thesis using False by (simp add: trie_load_def)
qed

lemma get_index_acct:
  assumes "get_index b address i = Inr f"
  shows "\<exists>a acct. normalize_address address = Inr a \<and> load_acct b a = Inr acct \<and> i < length acct \<and> f = acct ! i"
  using assms by (auto simp: get_index_def bindE_eq_Inr py_index_def split: if_splits)

lemma observe_stable:
  assumes "consistent b" and "store_le (db (state b)) s'"
  shows "observe P (b\<lparr>state := (state b)\<lparr>db := s'\<rparr>\<rparr>) address index = observe P b address index"
proof -
  let ?b' = "b\<lparr>state := (state b)\<lparr>db := s'\<rparr>\<rparr>"
  from assms(1) obtain m where m: "trie_load (state_nodes (db (state b))) (root (state b)) = Inr m"
    by (auto simp: consistent_def)
  have m': "trie_load (state_nodes s') (root (state b)) = Inr m"
    using trie_load_mono [OF m] assms(2) by (simp add: store_le_def)
  have acct: "load_acct ?b' a = load_acct b a" for a
    using m m' by (simp add: load_acct_def state_trie_get_def)
  have idx: "get_index ?b' a i = get_index b a i" for a i
    by (simp add: get_index_def acct)
  have blob: "db_get P s' h = db_get P (db (state b)) h" if "blobs (db (state b)) h \<noteq> None" for h
  proof -
    from that obtain v where v: "blobs (db (state b)) h = Some v" by auto
    then have "blobs s' h = Some v" using assms(2) by (auto simp: store_le_def map_le_def dom_def)
    then show ?thesis using v by (simp add: db_get_def)
  qed
  have sto: "trie_load (storage_nodes s') r = trie_load (storage_nodes (db (state b))) r"
    if "trie_load (storage_nodes (db (state b))) r = Inr sm" for r sm
    using trie_load_mono [OF that] assms(2) that by (simp add: store_le_def)
  have code: "get_code P ?b' address = get_code P b address"
  proof (cases "get_index b address CODE_INDEX")
    case (Inl e)
    then show ?thesis by (simp add: get_code_def idx)
  next
    case (Inr h)
    from get_index_acct [OF Inr] obtain a acct where "load_acct b a = Inr acct"
      "CODE_INDEX < length acct" "h = acct ! CODE_INDEX" by blast
    then have "h = [] \<or> blobs (db (state b)) h \<noteq> None"
      using assms(1) by (auto simp: consistent_def)
    then show ?thesis using Inr blob by (auto simp: get_code_def idx)
  qed
  have data: "get_storage_data ?b' address index = get_storage_data b address index"
  proof (cases "get_index b address STORAGE_INDEX")
    case (Inl e)
    then show ?thesis by (simp add: get_storage_data_def get_storage_def idx)
  next
    case (Inr r)
    from get_index_acct [OF Inr] obtain a acct where "load_acct b a = Inr acct"
      "STORAGE_INDEX < length acct" "r = acct ! STORAGE_INDEX" by blast
    then obtain sm where "trie_load (storage_nodes (db (state b))) r = Inr sm"
      using assms(1) by (auto simp: consistent_def)
    from sto [OF this] show ?thesis using Inr
      by (simp add: get_storage_data_def get_storage_def idx storage_trie_get_def)
  qed
  have dict: "account_to_dict P ?b' address = account_to_dict P b address"
  proof (cases "normalize_address address")
    case (Inl e)
    then show ?thesis by (simp add: account_to_dict_def)
  next
    case a: (Inr a)
    show ?thesis
    proof (cases "load_acct b a")
      case (Inl e)
      then show ?thesis using a by (simp add: account_to_dict_def acct)
    next
      case (Inr acct)
      have c: "db_get P s' (acct ! CODE_INDEX) = db_get P (db (state b)) (acct ! CODE_INDEX)"
        if "CODE_INDEX < length acct" "acct ! CODE_INDEX \<noteq> []"
      proof -
        from assms(1) Inr that(1)
        have "acct ! CODE_INDEX = [] \<or> blobs (db (state b)) (acct ! CODE_INDEX) \<noteq> None"
          unfolding consistent_def by blast
        with that(2) show ?thesis using blob by blast
      qed
      have s: "storage_trie_to_dict \<lparr>root = acct ! STORAGE_INDEX, db = s'\<rparr> =
               storage_trie_to_dict \<lparr>root = acct ! STORAGE_INDEX, db = db (state b)\<rparr>"
        if "STORAGE_INDEX < length acct"
      proof -
        from that assms(1) Inr obtain sm where
          "trie_load (storage_nodes (db (state b))) (acct ! STORAGE_INDEX) = Inr sm"
          by (auto simp: consistent_def)
        from sto [OF this] show ?thesis by (simp add: storage_trie_to_dict_def)
      qed
      show ?thesis using a Inr c s
        by (auto simp: account_to_dict_def acct py_index_def)
    qed
  qed
  show ?thesis
    by (simp add: observe_def get_balance_def get_nonce_def idx code data dict snapshot_def)
qed

section \<open>Snapshot and revert: what the accessors observe\<close>

text \<open>
  Claim C5, as amended. Take a snapshot of a block, perform any finite sequence of mutating
  operations (\<^verbatim>\<open>delta_balance\<close>, \<^verbatim>\<open>increment_nonce\<close>, \<^verbatim>\<open>set_balance\<close>, \<^verbatim>\<open>set_code\<close>,
  \<^verbatim>\<open>set_storage_data\<close>, updates of \<^verbatim>\<open>gas_consumed\<close>), and revert to the snapshot. The
  root digest and the gas counter are then those of the snapshot, and for every address
  and every storage key \<^verbatim>\<open>get_balance\<close>, \<^verbatim>\<open>get_nonce\<close>, \<^verbatim>\<open>get_code\<close>,
  \<^verbatim>\<open>get_storage_data\<close>, \<^verbatim>\<open>account_to_dict\<close> and \<^verbatim>\<open>snapshot\<close> return what they returned
  when the snapshot was taken. This holds on a content-addressed store under a
  collision-free digest and encoding, for a block that is consistent when the snapshot
  is taken.
\<close>

theorem revert_restores_observations:
  assumes "collision_free P" and "content_addressed P (db (state b))" and "consistent b"
    and "apply_mutations P b ms = Inr b'"
  shows "root (state (revert b' (fst (snapshot b)))) = root (state b) \<and>
         gas_consumed (revert b' (fst (snapshot b))) = gas_consumed b \<and>
         (\<forall>address index.
            observe P (revert b' (fst (snapshot b))) address index = observe P b address index)"
proof -
  from apply_mutations_grows [OF assms(1,2,4)] have le: "store_le (db (state b)) (db (state b'))"
    and fr: "b'\<lparr>state := state b, gas_consumed := gas_consumed b\<rparr> = b"
    by (simp_all add: grows_def)
  have "revert b' (fst (snapshot b)) =
        (b'\<lparr>state := state b, gas_consumed := gas_consumed b\<rparr>)\<lparr>state := (state b)\<lparr>db := db (state b')\<rparr>\<rparr>"
    by (simp add: revert_def snapshot_def)
  then have r: "revert b' (fst (snapshot b)) = b\<lparr>state := (state b)\<lparr>db := db (state b')\<rparr>\<rparr>"
    by (simp only: fr)
  show ?thesis
    using observe_stable [OF assms(3) le] by (simp add: r)
qed

lemma acct_node_inj: "acct_node m = acct_node m' \<Longrightarrow> m = m'"
proof -
  have "inj (\<lambda>(k :: string, a :: string list). PList [PStr k, PList (map PStr a)])"
    by (auto simp: inj_on_def dest: map_inj_on)
  then have "inj (map (\<lambda>(k :: string, a :: string list). PList [PStr k, PList (map PStr a)]))"
    by (rule inj_mapI)
  then show "acct_node m = acct_node m' \<Longrightarrow> m = m'"
    by (auto simp: acct_node_def dest: injD)
qed

lemma slot_node_inj: "slot_node m = slot_node m' \<Longrightarrow> m = m'"
proof -
  have "inj (\<lambda>(k :: string, v :: string). PList [PStr k, PStr v])"
    by (auto simp: inj_on_def)
  then have "inj (map (\<lambda>(k :: string, v :: string). PList [PStr k, PStr v]))"
    by (rule inj_mapI)
  then show "slot_node m = slot_node m' \<Longrightarrow> m = m'"
    by (auto simp: slot_node_def dest: injD)
qed

lemma int_free_acct_node: "int_free (acct_node m)"
  by (auto simp: acct_node_def list_all_iff)

lemma int_free_slot_node: "int_free (slot_node m)"
  by (auto simp: slot_node_def list_all_iff)

lemma ref_encode_inj:
  assumes "int_free v" and "int_free w" and "ref_encode v = ref_encode w"
  shows "v = w"
proof -
  have "Some v = ref_decode (ref_encode v)"
    using ref_decode_encode [OF assms(1)] by (rule sym)
  also have "\<dots> = ref_decode (ref_encode w)" by (simp only: assms(3))
  also have "\<dots> = Some w" by (rule ref_decode_encode [OF assms(2)])
  finally show ?thesis by (simp only: option.inject)
qed

lemma collision_free_ref: "collision_free ref_prims"
proof -
  have "inj (sha3 ref_prims)" by (simp add: ref_prims_def inj_on_def)
  moreover have "inj (\<lambda>m. rlp_encode ref_prims (acct_node m))"
    using ref_encode_inj [OF int_free_acct_node int_free_acct_node] acct_node_inj
    by (auto simp: ref_prims_def inj_on_def)
  moreover have "inj (\<lambda>m. rlp_encode ref_prims (slot_node m))"
    using ref_encode_inj [OF int_free_slot_node int_free_slot_node] slot_node_inj
    by (auto simp: ref_prims_def inj_on_def)
  ultimately show ?thesis by (simp add: collision_free_def)
qed

lemma content_addressed_empty: "content_addressed P empty_store"
  by (simp add: content_addressed_def empty_store_def)

lemma consistent_blank: "consistent blank_block"
  by (auto simp: consistent_def blank_block_def Block_fields_def trie_load_def load_acct_def
      state_trie_get_def blank_acct_def CODE_INDEX_def STORAGE_INDEX_def BLANK_NODE_def)

lemmas run_defs = set_balance_def set_index_def delta_balance_def delta_index_def increment_nonce_def
  set_code_unfold set_storage_data_def get_storage_def get_index_def load_acct_def normalize_address_def
  state_trie_get_def state_trie_update_def storage_trie_update_def storage_trie_delete_def
  trie_load_def trie_store_def encode_int_def coerce_to_bytes_def py_index_def blank_acct_def
  db_put_def db_commit_def BLANK_NODE_def NONCE_INDEX_def BALANCE_INDEX_def CODE_INDEX_def
  STORAGE_INDEX_def blank_block_def Block_fields_def empty_store_def ref_prims_def Let_def
  decode_int_to_bytes get_balance_def

lemma mutations_run:
  "\<exists>b'. apply_mutations ref_prims blank_block
          [Set_balance ''alice'' 100, Set_code ''alice'' ''code'',
           Set_storage_data ''alice'' (PInt 1) 7, Increment_nonce ''alice'',
           Delta_balance ''alice'' (- 30), Set_gas_consumed 21000] = Inr b' \<and>
        get_balance b' ''alice'' = Inr 70 \<and> gas_consumed b' = 21000"
  by (simp add: run_defs)

theorem revert_restores_observations_witness:
  "\<exists>b'. apply_mutations ref_prims blank_block
          [Set_balance ''alice'' 100, Set_code ''alice'' ''code'',
           Set_storage_data ''alice'' (PInt 1) 7, Increment_nonce ''alice'',
           Delta_balance ''alice'' (- 30), Set_gas_consumed 21000] = Inr b' \<and>
        get_balance b' ''alice'' = Inr 70 \<and> gas_consumed b' = 21000 \<and>
        observe ref_prims (revert b' (fst (snapshot blank_block))) ''alice'' (PInt 1) =
          observe ref_prims blank_block ''alice'' (PInt 1) \<and>
        gas_consumed (revert b' (fst (snapshot blank_block))) = 0 \<and>
        get_balance (revert b' (fst (snapshot blank_block))) ''alice'' = Inr 0"
proof -
  from mutations_run obtain b' where
    run: "apply_mutations ref_prims blank_block
          [Set_balance ''alice'' 100, Set_code ''alice'' ''code'',
           Set_storage_data ''alice'' (PInt 1) 7, Increment_nonce ''alice'',
           Delta_balance ''alice'' (- 30), Set_gas_consumed 21000] = Inr b'"
    and bal: "get_balance b' ''alice'' = Inr 70" and gas: "gas_consumed b' = 21000"
    by blast
  have ca: "content_addressed ref_prims (db (state blank_block))"
    using content_addressed_empty [of ref_prims] by (simp add: blank_block_def Block_fields_def)
  from revert_restores_observations [OF collision_free_ref ca consistent_blank run]
  have g: "gas_consumed (revert b' (fst (snapshot blank_block))) = gas_consumed blank_block"
    and obs: "observe ref_prims (revert b' (fst (snapshot blank_block))) ''alice'' (PInt 1) =
              observe ref_prims blank_block ''alice'' (PInt 1)"
    by blast+
  have g0: "gas_consumed (revert b' (fst (snapshot blank_block))) = 0"
    using g by (simp add: blank_block_def Block_fields_def)
  have "get_balance (revert b' (fst (snapshot blank_block))) ''alice'' = get_balance blank_block ''alice''"
    using obs by (simp add: observe_def)
  also have "\<dots> = Inr 0"
    by (simp add: get_balance_def blank_block_get_index BALANCE_INDEX_def decode_int_def)
  finally have b0: "get_balance (revert b' (fst (snapshot blank_block))) ''alice'' = Inr 0" .
  show ?thesis
    by (rule exI [of _ b']) (use run bal gas obs g0 b0 in blast)
qed

text \<open>
  Claim C5 as stated fails for a block in which an account holds a code hash whose code
  is not in the database, as \<^verbatim>\<open>set_index\<close> can leave it: \<^verbatim>\<open>get_code\<close> of that account
  returns the empty string when the snapshot is taken, and after \<^verbatim>\<open>set_code\<close> of that
  code on another address and the revert it returns the code, since \<^verbatim>\<open>revert\<close> restores
  the root and the gas counter and not the code store.
\<close>

theorem revert_restores_observations_counterexample:
  "set_index ref_prims blank_block ''alice'' CODE_INDEX (sha3 ref_prims ''code'') = Inr dangling_block \<and>
   get_code ref_prims dangling_block ''alice'' = Inr [] \<and>
   get_code_after ref_prims dangling_block [Set_code ''bob'' ''code''] ''alice'' = Inr ''code''"
  by (simp add: dangling_block_def dangling_root_def get_code_after_def get_code_def db_get_def
      revert_def snapshot_def acct_node_def run_defs)

end
